theory Spec2Isabelle
  imports Main
begin

section \<open>EncoreRafflerV5: data model\<close>

text \<open>
  The contract \<open>EncoreRafflerV5\<close> is embedded as state-passing functions. Every external
  function takes the contract state, \<open>msg.sender\<close> and (where the code reads it)
  \<open>block.timestamp\<close>, and returns \<open>error + state\<close>: \<open>Inl e\<close> is a revert with the custom
  error \<open>e\<close> (the transaction is rolled back, so the caller keeps the old state), \<open>Inr s'\<close> is
  a successful return with the new storage.

  \<open>uint256\<close> values are natural numbers; Solidity 0.8 checks every \<open>+\<close>, \<open>-\<close>, \<open>++\<close>,
  \<open>--\<close>, \<open>%\<close> and array read and reverts with a panic, which is the error \<open>Panic\<close> here.
  Events are not modelled. The \<open>nonReentrant\<close> modifier is not modelled either: the token
  below never calls back, so no function is ever entered twice.
\<close>

type_synonym address = nat

definition MAX_UINT256 :: nat where
  "MAX_UINT256 = 2 ^ 256 - 1"

datatype error =
    InvalidSigner
  | InvalidSignature
  | RaffleNotActive
  | DeadlineNotPassed
  | GracePeriodNotPassed
  | AlreadyEntered
  | RaffleClosed
  | InvalidRaffleType
  | TransferFailed
  | OnlyOwner
  | InvalidRaffleId
  | InsufficientAllowance
  | InvalidAmount
  | RaffleNotClosed
  | ZeroAddress
  | ContractPaused
  | VRFRequestNotFound
  | RaffleNotAwaitingVRF
  | CannotEndPoolEarly
  | InvalidRefundConditions
  | Panic

datatype RaffleType = DonationBased | ProfitBased | IncentiveBased

datatype RaffleStatus = Inactive | Active | Closed | AwaitingVRF | Finalized

text \<open>
  \<open>struct Raffle\<close>. The field \<open>id\<close> is \<open>id_r\<close> here. The mapping \<open>hasEntered\<close> from
  addresses to booleans is the set of addresses it maps to \<open>true\<close>.
\<close>

record Raffle =
  id_r :: nat
  organizer :: address
  status :: RaffleStatus
  raffleType :: RaffleType
  entryCost :: nat
  incentiveAmount :: nat
  totalCollected :: nat
  entryLimit :: nat
  entryCount :: nat
  deadline :: nat
  targetAmount :: nat
  isPool :: bool
  vrfRequestId :: nat
  winnerIndex :: nat
  payoutAddress :: address
  hasEntered :: "address set"

record VRFRequest =
  raffleId :: nat
  fulfilled :: bool

text \<open>The value of a storage slot that was never written: every field zero.\<close>

definition zero_Raffle :: Raffle where
  "zero_Raffle = \<lparr> id_r = 0, organizer = 0, status = Inactive, raffleType = DonationBased,
     entryCost = 0, incentiveAmount = 0, totalCollected = 0, entryLimit = 0, entryCount = 0,
     deadline = 0, targetAmount = 0, isPool = False, vrfRequestId = 0, winnerIndex = 0,
     payoutAddress = 0, hasEntered = {} \<rparr>"

definition zero_VRFRequest :: VRFRequest where
  "zero_VRFRequest = \<lparr> raffleId = 0, fulfilled = False \<rparr>"

subsection \<open>The payment token\<close>

text \<open>
  Modelled from the spec: the ERC20 contract behind \<open>paymentToken\<close> (an \<open>IERC20\<close> whose
  code is outside the repository). Section 6 of the specification gives its interface:
  \<open>transferIn(from, amount) -> success\<close>, \<open>transferOut(to, amount) -> success\<close>,
  \<open>allowance(owner) -> amount\<close>, atomic and all-or-nothing, failure reported as a boolean.
  The ledger below is that interface: a transfer succeeds exactly when the payer holds the
  amount (and, for \<open>transferFrom\<close>, has approved it), and \<open>None\<close> is the result \<open>false\<close>.
\<close>

record token =
  balanceOf :: "address \<Rightarrow> nat"
  allowance :: "address \<Rightarrow> address \<Rightarrow> nat"

text \<open>
  Modelled from the spec: \<open>transfer\<close> of the token (\<open>transferOut\<close> in section 6), called
  by \<open>src\<close>: it moves \<open>amount\<close> from \<open>src\<close> to \<open>dst\<close>, or fails as a whole.
\<close>

definition token_transfer :: "token \<Rightarrow> address \<Rightarrow> address \<Rightarrow> nat \<Rightarrow> token option" where
  "token_transfer t src dst amount =
     (if balanceOf t src < amount then None
      else Some (t\<lparr>balanceOf :=
             (let b = (balanceOf t)(src := balanceOf t src - amount)
              in b(dst := b dst + amount))\<rparr>))"

text \<open>
  Modelled from the spec: \<open>transferFrom\<close> of the token (\<open>transferIn\<close> in section 6),
  called by \<open>spender\<close>: it needs the allowance that \<open>src\<close> gave to \<open>spender\<close> and
  reduces it by \<open>amount\<close>.
\<close>

definition token_transferFrom ::
    "token \<Rightarrow> address \<Rightarrow> address \<Rightarrow> address \<Rightarrow> nat \<Rightarrow> token option" where
  "token_transferFrom t spender src dst amount =
     (if allowance t src spender < amount then None
      else case token_transfer t src dst amount of
             None \<Rightarrow> None
           | Some t' \<Rightarrow> Some (t'\<lparr>allowance :=
               (allowance t')(src := (allowance t' src)(spender := allowance t' src spender - amount))\<rparr>))"

subsection \<open>Signatures\<close>

text \<open>
  The three EIP-712 messages the contract hashes, with the fields of their type strings
  (\<open>CREATE_RAFFLE_TYPEHASH\<close>, \<open>INCENTIVE_ENTRY_TYPEHASH\<close>, \<open>END_RAFFLE_TYPEHASH\<close>).
\<close>

datatype message =
    CreateRaffleMsg address RaffleType nat nat nat nat nat bool address nat
  | IncentiveEntryMsg nat address address nat
  | EndRaffleMsg nat address nat

text \<open>
  Modelled from the spec: signature recovery (\<open>_hashTypedDataV4\<close> followed by
  \<open>ECDSA.recover\<close>, OpenZeppelin library code outside the repository). Section 4.1 of
  the specification takes signing as correct: a signature verifies exactly for the
  signer that made it and for the exact message it was made over. So a signature names
  its signer and its message, and \<open>recover\<close> yields the signer when the message is the
  one the contract hashes, and no address otherwise.

  A value of the type \<open>signature\<close> is a well-formed signature: bytes from which the
  library recovers an address. The functions of the contract take \<open>bytes calldata\<close>;
  empty or malformed bytes, on which the library's \<open>recover\<close> reverts with an error of
  its own, are not values of this type, and nothing here describes a call that carries
  them.
\<close>

datatype signature = Signature address message

fun recover :: "message \<Rightarrow> signature \<Rightarrow> address option" where
  "recover m (Signature a m') = (if m = m' then Some a else None)"

subsection \<open>Contract state\<close>

text \<open>
  The storage variables of the contract, the contract's own address \<open>self\<close>
  (\<open>address(this)\<close>), the ledger of the payment token, and \<open>extcalls\<close>: the
  state-changing external calls made so far (token transfers and randomness requests;
  the read of an allowance is not one), each with the raffle storage as it stood when
  the call was made. The last field is a history that the contract cannot read; it
  records in which order storage writes and external calls happen.
\<close>

datatype ext_call =
    CallTransferFrom address address nat
  | CallTransfer address nat
  | CallRequestRandomWords

record state =
  owner :: address
  appServerSigner :: address
  raffles :: "nat \<Rightarrow> Raffle"
  vrfRequests :: "nat \<Rightarrow> VRFRequest"
  nextRaffleId :: nat
  paused :: bool
  nonces :: "address \<Rightarrow> nat"
  self :: address
  tok :: token
  extcalls :: "(ext_call \<times> (nat \<Rightarrow> Raffle)) list"

definition REFUND_GRACE_PERIOD :: nat where
  "REFUND_GRACE_PERIOD = 3600"

text \<open>\<open>paymentToken.transferFrom(from, address(this), amount)\<close>, called in state \<open>s\<close>.\<close>

definition paymentToken_transferFrom :: "state \<Rightarrow> address \<Rightarrow> nat \<Rightarrow> state option" where
  "paymentToken_transferFrom s src amount =
     (case token_transferFrom (tok s) (self s) src (self s) amount of
        None \<Rightarrow> None
      | Some t \<Rightarrow> Some (s\<lparr>tok := t,
          extcalls := extcalls s @ [(CallTransferFrom src (self s) amount, raffles s)]\<rparr>))"

text \<open>\<open>paymentToken.transfer(to, amount)\<close>, called in state \<open>s\<close>.\<close>

definition paymentToken_transfer :: "state \<Rightarrow> address \<Rightarrow> nat \<Rightarrow> state option" where
  "paymentToken_transfer s dst amount =
     (case token_transfer (tok s) (self s) dst amount of
        None \<Rightarrow> None
      | Some t \<Rightarrow> Some (s\<lparr>tok := t,
          extcalls := extcalls s @ [(CallTransfer dst amount, raffles s)]\<rparr>))"

section \<open>Operations\<close>

text \<open>The constructor; \<open>t\<close> is the token ledger at deployment, \<open>this\<close> the new address.\<close>

definition constructor_V5 ::
    "token \<Rightarrow> address \<Rightarrow> address \<Rightarrow> address \<Rightarrow> address \<Rightarrow> address \<Rightarrow> error + state" where
  "constructor_V5 t this sender paymentToken' appServerSigner' vrfCoordinator' =
     (if paymentToken' = 0 then Inl ZeroAddress
      else if appServerSigner' = 0 then Inl ZeroAddress
      else if vrfCoordinator' = 0 then Inl ZeroAddress
      else Inr \<lparr> owner = sender, appServerSigner = appServerSigner',
             raffles = (\<lambda>_. zero_Raffle), vrfRequests = (\<lambda>_. zero_VRFRequest),
             nextRaffleId = 1, paused = False, nonces = (\<lambda>_. 0), self = this, tok = t,
             extcalls = [] \<rparr>)"

definition updateAppServerSigner :: "state \<Rightarrow> address \<Rightarrow> address \<Rightarrow> error + state" where
  "updateAppServerSigner s sender newSigner =
     (if sender \<noteq> owner s then Inl OnlyOwner
      else if newSigner = 0 then Inl ZeroAddress
      else Inr (s\<lparr>appServerSigner := newSigner\<rparr>))"

definition pause :: "state \<Rightarrow> address \<Rightarrow> error + state" where
  "pause s sender = (if sender \<noteq> owner s then Inl OnlyOwner else Inr (s\<lparr>paused := True\<rparr>))"

definition unpause :: "state \<Rightarrow> address \<Rightarrow> error + state" where
  "unpause s sender = (if sender \<noteq> owner s then Inl OnlyOwner else Inr (s\<lparr>paused := False\<rparr>))"

definition createRaffle ::
    "state \<Rightarrow> address \<Rightarrow> nat \<Rightarrow> RaffleType \<Rightarrow> nat \<Rightarrow> nat \<Rightarrow> nat \<Rightarrow> nat \<Rightarrow> nat \<Rightarrow> bool \<Rightarrow> address
       \<Rightarrow> signature \<Rightarrow> error + state" where
  "createRaffle s sender now raffleType' entryCost' incentiveAmount' entryLimit' deadline'
       targetAmount' isPool' payoutAddress' sig =
     (if paused s then Inl ContractPaused
      else if payoutAddress' = 0 then Inl ZeroAddress
      else if entryCost' = 0 then Inl InvalidAmount
      else if deadline' \<le> now then Inl InvalidAmount
      else if raffleType' = IncentiveBased
              \<and> (incentiveAmount' = 0 \<or> incentiveAmount' \<ge> entryCost') then Inl InvalidAmount
      else if raffleType' = DonationBased \<and> entryLimit' = 0 then Inl InvalidAmount
      else if isPool' \<and> targetAmount' = 0 then Inl InvalidAmount
      else if nonces s sender + 1 > MAX_UINT256 then Inl Panic
      else if recover (CreateRaffleMsg sender raffleType' entryCost' incentiveAmount' entryLimit'
                         deadline' targetAmount' isPool' payoutAddress' (nonces s sender)) sig
              \<noteq> Some (appServerSigner s) then Inl InvalidSignature
      else if nextRaffleId s + 1 > MAX_UINT256 then Inl Panic
      else
        let rId = nextRaffleId s;
            raffle = (raffles s rId)\<lparr> id_r := rId, organizer := sender, status := Active,
                       raffleType := raffleType', entryCost := entryCost',
                       incentiveAmount := incentiveAmount', entryLimit := entryLimit',
                       deadline := deadline', targetAmount := targetAmount', isPool := isPool',
                       payoutAddress := payoutAddress' \<rparr>
        in Inr (s\<lparr> nonces := (nonces s)(sender := nonces s sender + 1),
                    nextRaffleId := rId + 1,
                    raffles := (raffles s)(rId := raffle) \<rparr>))"

subsection \<open>Entry and refund\<close>

definition enterRaffle :: "state \<Rightarrow> address \<Rightarrow> nat \<Rightarrow> error + state" where
  "enterRaffle s sender rId =
     (if paused s then Inl ContractPaused
      else if rId = 0 \<or> rId \<ge> nextRaffleId s then Inl InvalidRaffleId
      else
        let raffle = raffles s rId in
        if status raffle \<noteq> Active then Inl RaffleNotActive
        else if sender \<in> hasEntered raffle then Inl AlreadyEntered
        else if raffleType raffle = IncentiveBased then Inl InvalidRaffleType
        else if allowance (tok s) sender (self s) < entryCost raffle then Inl InsufficientAllowance
        else if entryCount raffle + 1 > MAX_UINT256 then Inl Panic
        else if totalCollected raffle + entryCost raffle > MAX_UINT256 then Inl Panic
        else
          let raffle1 = raffle\<lparr> hasEntered := insert sender (hasEntered raffle),
                          entryCount := entryCount raffle + 1,
                          totalCollected := totalCollected raffle + entryCost raffle \<rparr>;
              s1 = s\<lparr>raffles := (raffles s)(rId := raffle1)\<rparr>
          in case paymentToken_transferFrom s1 sender (entryCost raffle1) of
               None \<Rightarrow> Inl TransferFailed
             | Some s2 \<Rightarrow>
                 let shouldClose =
                       (if raffleType raffle1 = DonationBased
                           \<and> entryCount raffle1 \<ge> entryLimit raffle1 then True
                        else if isPool raffle1 \<and> totalCollected raffle1 \<ge> targetAmount raffle1
                        then True
                        else False)
                 in if shouldClose
                    then Inr (s2\<lparr>raffles := (raffles s2)(rId := raffle1\<lparr>status := Closed\<rparr>)\<rparr>)
                    else Inr s2)"

definition joinIncentiveRaffle ::
    "state \<Rightarrow> address \<Rightarrow> nat \<Rightarrow> address \<Rightarrow> signature \<Rightarrow> error + state" where
  "joinIncentiveRaffle s sender rId paymentAddress sig =
     (if paused s then Inl ContractPaused
      else if rId = 0 \<or> rId \<ge> nextRaffleId s then Inl InvalidRaffleId
      else if paymentAddress = 0 then Inl ZeroAddress
      else
        let raffle = raffles s rId in
        if status raffle \<noteq> Active then Inl RaffleNotActive
        else if sender \<in> hasEntered raffle then Inl AlreadyEntered
        else if raffleType raffle \<noteq> IncentiveBased then Inl InvalidRaffleType
        else if nonces s sender + 1 > MAX_UINT256 then Inl Panic
        else if recover (IncentiveEntryMsg rId sender paymentAddress (nonces s sender)) sig
                \<noteq> Some (appServerSigner s) then Inl InvalidSignature
        else if allowance (tok s) sender (self s) < entryCost raffle then Inl InsufficientAllowance
        else if entryCount raffle + 1 > MAX_UINT256 then Inl Panic
        else if entryCost raffle < incentiveAmount raffle then Inl Panic
        else
          let raffleAmount = entryCost raffle - incentiveAmount raffle in
          if totalCollected raffle + raffleAmount > MAX_UINT256 then Inl Panic
          else
            let raffle1 = raffle\<lparr> hasEntered := insert sender (hasEntered raffle),
                            entryCount := entryCount raffle + 1,
                            totalCollected := totalCollected raffle + raffleAmount \<rparr>;
                s1 = s\<lparr> nonces := (nonces s)(sender := nonces s sender + 1),
                         raffles := (raffles s)(rId := raffle1) \<rparr>
            in case paymentToken_transferFrom s1 sender (entryCost raffle1) of
                 None \<Rightarrow> Inl TransferFailed
               | Some s2 \<Rightarrow>
                   (case paymentToken_transfer s2 paymentAddress (incentiveAmount raffle1) of
                      None \<Rightarrow> Inl TransferFailed
                    | Some s3 \<Rightarrow>
                        if isPool raffle1 \<and> totalCollected raffle1 \<ge> targetAmount raffle1
                        then Inr (s3\<lparr>raffles := (raffles s3)(rId := raffle1\<lparr>status := Closed\<rparr>)\<rparr>)
                        else Inr s3))"

definition refund :: "state \<Rightarrow> address \<Rightarrow> nat \<Rightarrow> nat \<Rightarrow> error + state" where
  "refund s sender now rId =
     (if paused s then Inl ContractPaused
      else if rId = 0 \<or> rId \<ge> nextRaffleId s then Inl InvalidRaffleId
      else
        let raffle = raffles s rId in
        if sender \<notin> hasEntered raffle then Inl AlreadyEntered
        else if isPool raffle \<and> status raffle \<noteq> Active then Inl InvalidRefundConditions
        else if \<not> isPool raffle \<and> status raffle \<noteq> Active then Inl RaffleNotActive
        else if \<not> isPool raffle \<and> deadline raffle + REFUND_GRACE_PERIOD > MAX_UINT256
        then Inl Panic
        else if \<not> isPool raffle \<and> now \<le> deadline raffle + REFUND_GRACE_PERIOD
        then Inl GracePeriodNotPassed
        else if raffleType raffle = IncentiveBased \<and> entryCost raffle < incentiveAmount raffle
        then Inl Panic
        else
          let refundAmount = (if raffleType raffle = IncentiveBased
                              then entryCost raffle - incentiveAmount raffle
                              else entryCost raffle) in
          if entryCount raffle = 0 then Inl Panic
          else if totalCollected raffle < refundAmount then Inl Panic
          else
            let raffle1 = raffle\<lparr> hasEntered := hasEntered raffle - {sender},
                            entryCount := entryCount raffle - 1,
                            totalCollected := totalCollected raffle - refundAmount \<rparr>;
                s1 = s\<lparr>raffles := (raffles s)(rId := raffle1)\<rparr>
            in case paymentToken_transfer s1 sender refundAmount of
                 None \<Rightarrow> Inl TransferFailed
               | Some s2 \<Rightarrow> Inr s2)"

subsection \<open>Ending a raffle\<close>

definition finalizePoolRaffle :: "state \<Rightarrow> nat \<Rightarrow> error + state" where
  "finalizePoolRaffle s rId =
     (let raffle = raffles s rId;
          prizeAmount = totalCollected raffle;
          s1 = s\<lparr>raffles := (raffles s)(rId := raffle\<lparr>status := Finalized, totalCollected := 0\<rparr>)\<rparr>
      in if prizeAmount > 0
         then (case paymentToken_transfer s1 (payoutAddress raffle) prizeAmount of
                 None \<Rightarrow> Inl TransferFailed
               | Some s2 \<Rightarrow> Inr s2)
         else Inr s1)"

text \<open>
  \<open>_requestVRF\<close>. The call \<open>s_vrfCoordinator.requestRandomWords\<close> goes to the Chainlink
  coordinator, whose code is outside the repository; the request id it returns is the
  argument \<open>requestId\<close>.
\<close>

definition requestVRF :: "state \<Rightarrow> nat \<Rightarrow> nat \<Rightarrow> error + state" where
  "requestVRF s rId requestId =
     (let raffle = raffles s rId in
      if entryCount raffle = 0
      then Inr (s\<lparr>raffles := (raffles s)(rId := raffle\<lparr>status := Finalized\<rparr>)\<rparr>)
      else
        let s1 = s\<lparr>extcalls := extcalls s @ [(CallRequestRandomWords, raffles s)]\<rparr>
        in Inr (s1\<lparr> raffles := (raffles s1)(rId := raffle\<lparr>vrfRequestId := requestId,
                                                         status := AwaitingVRF\<rparr>),
                     vrfRequests := (vrfRequests s1)(requestId :=
                                       \<lparr>raffleId = rId, fulfilled = False\<rparr>) \<rparr>))"

definition endRaffle ::
    "state \<Rightarrow> address \<Rightarrow> nat \<Rightarrow> nat \<Rightarrow> signature \<Rightarrow> nat \<Rightarrow> error + state" where
  "endRaffle s sender now rId sig requestId =
     (if paused s then Inl ContractPaused
      else if rId = 0 \<or> rId \<ge> nextRaffleId s then Inl InvalidRaffleId
      else
        let raffle = raffles s rId in
        if status raffle \<noteq> Active \<and> status raffle \<noteq> Closed then Inl RaffleNotActive
        else
          let isAppServer = (sender = appServerSigner s);
              isOrganizer = (sender = organizer raffle) in
          if \<not> isAppServer \<and> \<not> isOrganizer then Inl InvalidSigner
          else if \<not> isAppServer \<and> isPool raffle
                  \<and> totalCollected raffle < targetAmount raffle \<and> now < deadline raffle
          then Inl CannotEndPoolEarly
          else if \<not> isAppServer \<and> \<not> isPool raffle \<and> now < deadline raffle
          then Inl DeadlineNotPassed
          else if isOrganizer \<and> nonces s sender + 1 > MAX_UINT256 then Inl Panic
          else if isOrganizer
                  \<and> recover (EndRaffleMsg rId sender (nonces s sender)) sig
                       \<noteq> Some (appServerSigner s)
          then Inl InvalidSignature
          else
            let s1 = (if isOrganizer
                      then s\<lparr>nonces := (nonces s)(sender := nonces s sender + 1)\<rparr>
                      else s)
            in if isPool raffle then finalizePoolRaffle s1 rId
               else requestVRF s1 rId requestId)"

subsection \<open>The randomness callback\<close>

definition fulfillRandomWords :: "state \<Rightarrow> nat \<Rightarrow> nat list \<Rightarrow> error + state" where
  "fulfillRandomWords s requestId randomWords =
     (let request = vrfRequests s requestId in
      if raffleId request = 0 then Inl VRFRequestNotFound
      else if fulfilled request then Inr s
      else
        let s1 = s\<lparr>vrfRequests := (vrfRequests s)(requestId := request\<lparr>fulfilled := True\<rparr>)\<rparr>;
            raffle = raffles s1 (raffleId request) in
        if status raffle \<noteq> AwaitingVRF then Inl RaffleNotAwaitingVRF
        else case randomWords of
               [] \<Rightarrow> Inl Panic
             | w # _ \<Rightarrow>
                 if entryCount raffle = 0 then Inl Panic
                 else if w mod entryCount raffle + 1 > MAX_UINT256 then Inl Panic
                 else
                   let winnerIndex' = w mod entryCount raffle + 1;
                       prizeAmount = totalCollected raffle;
                       s2 = s1\<lparr>raffles := (raffles s1)(raffleId request :=
                                  raffle\<lparr> winnerIndex := winnerIndex', status := Finalized,
                                          totalCollected := 0 \<rparr>)\<rparr>
                   in if prizeAmount > 0
                      then (case paymentToken_transfer s2 (payoutAddress raffle) prizeAmount of
                              None \<Rightarrow> Inl TransferFailed
                            | Some s3 \<Rightarrow> Inr s3)
                      else Inr s2)"

section \<open>Runs of the contract\<close>

text \<open>
  A transaction is one call of an external function (with its sender, the block timestamp
  where the function reads it, and its arguments), a delivery of the randomness callback,
  or a move on the token ledger by another holder. The argument of \<open>EndRaffle\<close> after the
  signature is the request id the coordinator hands out.
\<close>

datatype call =
    CreateRaffle address nat RaffleType nat nat nat nat nat bool address signature
  | EnterRaffle address nat
  | JoinIncentiveRaffle address nat address signature
  | Refund address nat nat
  | EndRaffle address nat nat signature nat
  | FulfillRandomWords nat "nat list"
  | UpdateAppServerSigner address address
  | Pause address
  | Unpause address
  | TokenTransfer address address nat
  | TokenApprove address address nat

fun exec :: "state \<Rightarrow> call \<Rightarrow> error + state" where
  "exec s (CreateRaffle sender now ty cost inc lim dl tgt pool payout sig) =
     createRaffle s sender now ty cost inc lim dl tgt pool payout sig"
| "exec s (EnterRaffle sender rId) = enterRaffle s sender rId"
| "exec s (JoinIncentiveRaffle sender rId paymentAddress sig) =
     joinIncentiveRaffle s sender rId paymentAddress sig"
| "exec s (Refund sender now rId) = refund s sender now rId"
| "exec s (EndRaffle sender now rId sig requestId) = endRaffle s sender now rId sig requestId"
| "exec s (FulfillRandomWords requestId randomWords) = fulfillRandomWords s requestId randomWords"
| "exec s (UpdateAppServerSigner sender newSigner) = updateAppServerSigner s sender newSigner"
| "exec s (Pause sender) = pause s sender"
| "exec s (Unpause sender) = unpause s sender"
| "exec s (TokenTransfer src dst amount) =
     (case token_transfer (tok s) src dst amount of
        None \<Rightarrow> Inl TransferFailed
      | Some t \<Rightarrow> Inr (s\<lparr>tok := t\<rparr>))"
| "exec s (TokenApprove holder spender amount) =
     Inr (s\<lparr>tok := (tok s)\<lparr>allowance :=
            (allowance (tok s))(holder := (allowance (tok s) holder)(spender := amount))\<rparr>\<rparr>)"

text \<open>
  The account a transaction acts for. The contract has no code that calls one of its own
  external functions or that moves or approves its tokens other than by the transfers
  above, so no transaction acts for \<open>address(this)\<close>.
\<close>

fun acts_for :: "call \<Rightarrow> address option" where
  "acts_for (CreateRaffle sender _ _ _ _ _ _ _ _ _ _) = Some sender"
| "acts_for (EnterRaffle sender _) = Some sender"
| "acts_for (JoinIncentiveRaffle sender _ _ _) = Some sender"
| "acts_for (Refund sender _ _) = Some sender"
| "acts_for (EndRaffle sender _ _ _ _) = Some sender"
| "acts_for (FulfillRandomWords _ _) = None"
| "acts_for (UpdateAppServerSigner sender _) = Some sender"
| "acts_for (Pause sender) = Some sender"
| "acts_for (Unpause sender) = Some sender"
| "acts_for (TokenTransfer src _ _) = Some src"
| "acts_for (TokenApprove holder _ _) = Some holder"

text \<open>One transaction: a revert leaves the state as it was.\<close>

definition step :: "state \<Rightarrow> call \<Rightarrow> state" where
  "step s c =
     (if acts_for c = Some (self s) then s
      else case exec s c of Inl _ \<Rightarrow> s | Inr s' \<Rightarrow> s')"

definition run :: "state \<Rightarrow> call list \<Rightarrow> state" where
  "run s cs = foldl step s cs"

section \<open>The escrow ledger\<close>

text \<open>A member's raffle-portion contribution, and the two sums of the ledger invariant.\<close>

definition raffleAmount :: "Raffle \<Rightarrow> nat" where
  "raffleAmount r =
     (if raffleType r = IncentiveBased then entryCost r - incentiveAmount r else entryCost r)"

definition members_sum :: "Raffle \<Rightarrow> nat" where
  "members_sum r = (\<Sum>a \<in> hasEntered r. raffleAmount r)"

definition escrow_total :: "state \<Rightarrow> nat" where
  "escrow_total s = (\<Sum>i = 1..<nextRaffleId s. totalCollected (raffles s i))"

definition raffle_inv :: "Raffle \<Rightarrow> bool" where
  "raffle_inv r \<longleftrightarrow>
     finite (hasEntered r)
     \<and> entryCount r = card (hasEntered r)
     \<and> entryCount r \<le> MAX_UINT256
     \<and> (status r \<noteq> Finalized \<longrightarrow> totalCollected r = members_sum r)
     \<and> (status r = Finalized \<longrightarrow> totalCollected r = 0)
     \<and> (raffleType r = IncentiveBased \<longrightarrow> incentiveAmount r \<le> entryCost r)
     \<and> (status r = AwaitingVRF \<longrightarrow> 0 < entryCount r)
     \<and> (status r = Inactive \<longrightarrow> hasEntered r = {})"

definition state_inv :: "state \<Rightarrow> bool" where
  "state_inv s \<longleftrightarrow>
     (\<forall>i. raffle_inv (raffles s i))
     \<and> (\<forall>i. i = 0 \<or> nextRaffleId s \<le> i \<longrightarrow> status (raffles s i) = Inactive)
     \<and> 1 \<le> nextRaffleId s
     \<and> escrow_total s \<le> balanceOf (tok s) (self s)"

text \<open>
  What a transaction may not change in a raffle that exists: its type, entry cost and
  incentive amount are fixed at creation, a raffle never becomes \<open>Inactive\<close> again, and
  a \<open>Finalized\<close> raffle stays \<open>Finalized\<close>.
\<close>

definition raffle_frame :: "Raffle \<Rightarrow> Raffle \<Rightarrow> bool" where
  "raffle_frame r r' \<longleftrightarrow>
     raffleType r' = raffleType r
     \<and> entryCost r' = entryCost r
     \<and> incentiveAmount r' = incentiveAmount r
     \<and> (status r \<noteq> Inactive \<longrightarrow> status r' \<noteq> Inactive)
     \<and> (status r = Finalized \<longrightarrow> status r' = Finalized)"

text \<open>
  The bookkeeping of randomness requests: a request that is recorded and not yet
  fulfilled belongs to a raffle that is waiting for it, and is the request that the
  raffle names.
\<close>

definition vrf_inv :: "state \<Rightarrow> bool" where
  "vrf_inv s \<longleftrightarrow>
     (\<forall>q. raffleId (vrfRequests s q) \<noteq> 0 \<and> \<not> fulfilled (vrfRequests s q) \<longrightarrow>
          status (raffles s (raffleId (vrfRequests s q))) = AwaitingVRF
          \<and> vrfRequestId (raffles s (raffleId (vrfRequests s q))) = q)"

section \<open>External calls of one transaction\<close>

text \<open>The external calls a transaction from \<open>s\<close> to \<open>s'\<close> has made, in order.\<close>

definition new_calls :: "state \<Rightarrow> state \<Rightarrow> (ext_call \<times> (nat \<Rightarrow> Raffle)) list" where
  "new_calls s s' = drop (length (extcalls s)) (extcalls s')"

text \<open>
  The prize discipline of a finalization of raffle \<open>rId\<close> that leads from \<open>s\<close> to \<open>s'\<close>: if
  the raffle held a balance, exactly one external call is made, the transfer of that whole
  balance to \<open>payoutAddress\<close>, and at the moment of the call the raffle is already
  \<open>Finalized\<close> with balance zero; if it held nothing, no external call is made.
\<close>

definition paid_after_zeroing :: "state \<Rightarrow> state \<Rightarrow> nat \<Rightarrow> bool" where
  "paid_after_zeroing s s' rId =
     (let r = raffles s rId in
      case new_calls s s' of
        [] \<Rightarrow> totalCollected r = 0
      | [(c, snap)] \<Rightarrow>
          0 < totalCollected r
          \<and> c = CallTransfer (payoutAddress r) (totalCollected r)
          \<and> status (snap rId) = Finalized \<and> totalCollected (snap rId) = 0
      | _ \<Rightarrow> False)"

section \<open>Example runs\<close>

text \<open>
  A deployment used in the examples: the contract lives at address 100, its owner is 1,
  the App Server signer is 9. The holders 6 and 8 each own 1000 tokens and have approved
  the contract for them.
\<close>

definition ex_token :: token where
  "ex_token = \<lparr> balanceOf = (\<lambda>a. if a = 6 \<or> a = 8 then 1000 else 0),
                 allowance = (\<lambda>a b. if (a = 6 \<or> a = 8) \<and> b = 100 then 1000 else 0) \<rparr>"

definition ex_init :: state where
  "ex_init = \<lparr> owner = 1, appServerSigner = 9, raffles = (\<lambda>_. zero_Raffle),
                vrfRequests = (\<lambda>_. zero_VRFRequest), nextRaffleId = 1, paused = False,
                nonces = (\<lambda>_. 0), self = 100, tok = ex_token, extcalls = [] \<rparr>"

text \<open>A well-formed signature that authorizes nothing the contract asks for.\<close>

definition ex_no_sig :: signature where
  "ex_no_sig = Signature 0 (EndRaffleMsg 0 0 0)"

text \<open>
  A pool raffle (ProfitBased, entry cost 100, target 500, deadline 10, payout to 7)
  created by organizer 5 and entered by 6; then ended by the App Server; or paused by the
  owner instead.
\<close>

definition ex_pool_open :: "call list" where
  "ex_pool_open =
     [CreateRaffle 5 0 ProfitBased 100 0 0 10 500 True 7
        (Signature 9 (CreateRaffleMsg 5 ProfitBased 100 0 0 10 500 True 7 0)),
      EnterRaffle 6 1]"

definition ex_pool_final :: "call list" where
  "ex_pool_final = ex_pool_open @ [EndRaffle 9 0 1 ex_no_sig 0]"

definition ex_pool_paused :: "call list" where
  "ex_pool_paused = ex_pool_open @ [Pause 1]"

text \<open>
  Scenario A of the specification: a DonationBased traditional raffle with entry cost 100
  and entry limit 2, entered by 6 and 8, ended by the App Server (the coordinator hands
  out request id 77), and fulfilled with the random value 7.
\<close>

definition ex_trad_open :: "call list" where
  "ex_trad_open =
     [CreateRaffle 5 0 DonationBased 100 0 2 10 0 False 7
        (Signature 9 (CreateRaffleMsg 5 DonationBased 100 0 2 10 0 False 7 0)),
      EnterRaffle 6 1]"

definition ex_trad_closed :: "call list" where
  "ex_trad_closed = ex_trad_open @ [EnterRaffle 8 1]"

definition ex_trad_awaiting :: "call list" where
  "ex_trad_awaiting = ex_trad_closed @ [EndRaffle 9 0 1 ex_no_sig 77]"

definition ex_trad_final :: "call list" where
  "ex_trad_final = ex_trad_awaiting @ [FulfillRandomWords 77 [7]]"

text \<open>
  Scenario C of the specification: an IncentiveBased pool raffle with entry cost 100 and
  incentive amount 20, joined by 6 with the incentive going to 8.
\<close>

definition ex_incentive_open :: "call list" where
  "ex_incentive_open =
     [CreateRaffle 5 0 IncentiveBased 100 20 0 10 500 True 7
        (Signature 9 (CreateRaffleMsg 5 IncentiveBased 100 20 0 10 500 True 7 0))]"

definition ex_incentive_joined :: "call list" where
  "ex_incentive_joined =
     ex_incentive_open @ [JoinIncentiveRaffle 6 1 8 (Signature 9 (IncentiveEntryMsg 1 6 8 0))]"

definition ex_incentive_refunded :: "call list" where
  "ex_incentive_refunded = ex_incentive_joined @ [Refund 6 0 1]"

text \<open>
  Two pool raffles that an entry closes. A ProfitBased pool raffle with entry cost 100
  and target 200: 6 enters (100 collected), then 8 enters (200 collected). An
  IncentiveBased pool raffle with entry cost 100, incentive amount 20 and target 160:
  6 joins (80 collected), then 8 joins (160 collected).
\<close>

definition ex_small_pool_open :: "call list" where
  "ex_small_pool_open =
     [CreateRaffle 5 0 ProfitBased 100 0 0 10 200 True 7
        (Signature 9 (CreateRaffleMsg 5 ProfitBased 100 0 0 10 200 True 7 0)),
      EnterRaffle 6 1]"

definition ex_small_pool_closed :: "call list" where
  "ex_small_pool_closed = ex_small_pool_open @ [EnterRaffle 8 1]"

definition ex_small_incentive_open :: "call list" where
  "ex_small_incentive_open =
     [CreateRaffle 5 0 IncentiveBased 100 20 0 10 160 True 7
        (Signature 9 (CreateRaffleMsg 5 IncentiveBased 100 20 0 10 160 True 7 0)),
      JoinIncentiveRaffle 6 1 8 (Signature 9 (IncentiveEntryMsg 1 6 8 0))]"

definition ex_small_incentive_closed :: "call list" where
  "ex_small_incentive_closed =
     ex_small_incentive_open
       @ [JoinIncentiveRaffle 8 1 6 (Signature 9 (IncentiveEntryMsg 1 8 6 0))]"

text \<open>A traditional raffle whose organizer is the App Server signer itself.\<close>

definition ex_own_raffle :: "call list" where
  "ex_own_raffle =
     [CreateRaffle 9 0 ProfitBased 100 0 0 10 0 False 7
        (Signature 9 (CreateRaffleMsg 9 ProfitBased 100 0 0 10 0 False 7 0))]"

definition ex_own_final :: "call list" where
  "ex_own_final = ex_own_raffle @ [EndRaffle 9 0 1 (Signature 9 (EndRaffleMsg 1 9 1)) 0]"

text \<open>A traditional raffle whose deadline is the largest \<open>uint256\<close>, entered by 6.\<close>

definition ex_far_deadline :: "call list" where
  "ex_far_deadline =
     [CreateRaffle 5 0 ProfitBased 100 0 0 MAX_UINT256 0 False 7
        (Signature 9 (CreateRaffleMsg 5 ProfitBased 100 0 0 MAX_UINT256 0 False 7 0)),
      EnterRaffle 6 1]"

section \<open>The ledger invariant is preserved by every transaction\<close>

lemma raffles_transferFrom:
  "paymentToken_transferFrom s a n = Some s' \<Longrightarrow>
     raffles s' = raffles s \<and> nextRaffleId s' = nextRaffleId s \<and> self s' = self s
     \<and> vrfRequests s' = vrfRequests s \<and> paused s' = paused s"
  by (auto simp: paymentToken_transferFrom_def split: option.splits)

lemma raffles_transfer:
  "paymentToken_transfer s a n = Some s' \<Longrightarrow>
     raffles s' = raffles s \<and> nextRaffleId s' = nextRaffleId s \<and> self s' = self s
     \<and> vrfRequests s' = vrfRequests s \<and> paused s' = paused s"
  by (auto simp: paymentToken_transfer_def split: option.splits)

lemma balance_transferFrom:
  "paymentToken_transferFrom s a n = Some s' \<Longrightarrow> a \<noteq> self s \<Longrightarrow>
     balanceOf (tok s') (self s) = balanceOf (tok s) (self s) + n"
  by (auto simp: paymentToken_transferFrom_def token_transferFrom_def token_transfer_def Let_def
           split: option.splits if_splits)

lemma balance_transfer:
  "paymentToken_transfer s a n = Some s' \<Longrightarrow>
     balanceOf (tok s') (self s) + n \<ge> balanceOf (tok s) (self s)
     \<and> n \<le> balanceOf (tok s) (self s)"
  by (auto simp: paymentToken_transfer_def token_transfer_def Let_def
           split: option.splits if_splits)

lemma escrow_total_upd:
  "1 \<le> k \<Longrightarrow> k < nextRaffleId s \<Longrightarrow>
   escrow_total (s\<lparr>raffles := (raffles s)(k := r)\<rparr>) + totalCollected (raffles s k)
     = escrow_total s + totalCollected r"
proof -
  assume k: "1 \<le> k" "k < nextRaffleId s"
  let ?A = "{1..<nextRaffleId s}"
  have kin: "k \<in> ?A" using k by simp
  have fin: "finite ?A" by simp
  have a: "(\<Sum>i\<in>?A. totalCollected (((raffles s)(k := r)) i))
        = totalCollected r + (\<Sum>i\<in>?A - {k}. totalCollected (((raffles s)(k := r)) i))"
    using sum.remove[OF fin kin, of "\<lambda>i. totalCollected (((raffles s)(k := r)) i)"] by simp
  have b: "(\<Sum>i\<in>?A. totalCollected (raffles s i))
        = totalCollected (raffles s k) + (\<Sum>i\<in>?A - {k}. totalCollected (raffles s i))"
    using sum.remove[OF fin kin, of "\<lambda>i. totalCollected (raffles s i)"] by simp
  have c: "(\<Sum>i\<in>?A - {k}. totalCollected (((raffles s)(k := r)) i))
         = (\<Sum>i\<in>?A - {k}. totalCollected (raffles s i))"
    by (rule sum.cong) auto
  show ?thesis using a b c by (simp add: escrow_total_def)
qed

lemma escrow_total_ge:
  "1 \<le> k \<Longrightarrow> k < nextRaffleId s \<Longrightarrow> totalCollected (raffles s k) \<le> escrow_total s"
proof -
  assume k: "1 \<le> k" "k < nextRaffleId s"
  have "totalCollected (raffles s k) \<le> (\<Sum>i\<in>{1..<nextRaffleId s}. totalCollected (raffles s i))"
    by (rule member_le_sum) (use k in auto)
  then show ?thesis by (simp add: escrow_total_def)
qed

lemma state_inv_upd:
  assumes inv: "state_inv s"
    and k: "1 \<le> k" "k < nextRaffleId s"
    and r: "raffle_inv r" "status r \<noteq> Inactive"
    and s': "raffles s' = (raffles s)(k := r)" "nextRaffleId s' = nextRaffleId s"
            "self s' = self s"
    and bal: "balanceOf (tok s) (self s) + totalCollected r
                \<le> balanceOf (tok s') (self s) + totalCollected (raffles s k)"
  shows "state_inv s'"
proof -
  have e: "escrow_total s' = escrow_total (s\<lparr>raffles := (raffles s)(k := r)\<rparr>)"
    by (simp add: escrow_total_def s')
  have "escrow_total s' + totalCollected (raffles s k) = escrow_total s + totalCollected r"
    using escrow_total_upd[OF k, of r] e by simp
  moreover have "escrow_total s \<le> balanceOf (tok s) (self s)"
    using inv by (simp add: state_inv_def)
  ultimately have "escrow_total s' \<le> balanceOf (tok s') (self s')"
    using bal by (simp add: s'(3))
  moreover have "\<forall>i. raffle_inv (raffles s' i)"
    using inv r by (simp add: state_inv_def s')
  moreover have "\<forall>i. i = 0 \<or> nextRaffleId s' \<le> i \<longrightarrow> status (raffles s' i) = Inactive"
    using inv k by (auto simp: state_inv_def s')
  moreover have "1 \<le> nextRaffleId s'"
    using inv by (simp add: state_inv_def s')
  ultimately show ?thesis by (simp add: state_inv_def)
qed

lemma state_inv_raffle: "state_inv s \<Longrightarrow> raffle_inv (raffles s i)"
  by (simp add: state_inv_def)

lemma members_sum_card: "members_sum r = card (hasEntered r) * raffleAmount r"
  by (simp add: members_sum_def)

lemma enterRaffle_inv:
  assumes inv: "state_inv s" and ns: "sender \<noteq> self s"
    and ok: "enterRaffle s sender rId = Inr s'"
  shows "state_inv s'"
proof -
  let ?r = "raffles s rId"
  let ?r1 = "?r\<lparr> hasEntered := insert sender (hasEntered ?r),
                  entryCount := entryCount ?r + 1,
                  totalCollected := totalCollected ?r + entryCost ?r \<rparr>"
  let ?s1 = "s\<lparr>raffles := (raffles s)(rId := ?r1)\<rparr>"
  from ok have k: "1 \<le> rId" "rId < nextRaffleId s"
    and act: "status ?r = Active" and new: "sender \<notin> hasEntered ?r"
    and ty: "raffleType ?r \<noteq> IncentiveBased"
    and mx: "entryCount ?r + 1 \<le> MAX_UINT256"
    by (simp_all add: enterRaffle_def Let_def split: if_splits)
  from ok obtain s2 where s2: "paymentToken_transferFrom ?s1 sender (entryCost ?r) = Some s2"
    and s': "s' = s2 \<or> s' = s2\<lparr>raffles := (raffles s2)(rId := ?r1\<lparr>status := Closed\<rparr>)\<rparr>"
    by (simp add: enterRaffle_def Let_def split: if_splits option.splits)
  have ri: "raffle_inv ?r" using inv by (rule state_inv_raffle)
  have r1: "raffle_inv ?r1" "raffle_inv (?r1\<lparr>status := Closed\<rparr>)"
    using ri act new ty mx by (auto simp: raffle_inv_def members_sum_card raffleAmount_def)
  have st: "status ?r1 \<noteq> Inactive" using act by simp
  note f = raffles_transferFrom[OF s2]
  have b: "balanceOf (tok s2) (self s) = balanceOf (tok s) (self s) + entryCost ?r"
    using balance_transferFrom[OF s2] ns by simp
  from s' show ?thesis
  proof
    assume "s' = s2"
    then show ?thesis
      using state_inv_upd[OF inv k r1(1) st, of s'] f b by simp
  next
    assume e: "s' = s2\<lparr>raffles := (raffles s2)(rId := ?r1\<lparr>status := Closed\<rparr>)\<rparr>"
    show ?thesis
      by (rule state_inv_upd[OF inv k r1(2)]) (use e f b in simp_all)
  qed
qed

lemma raffleAmount_upd [simp]:
  "raffleAmount (r\<lparr>hasEntered := h\<rparr>) = raffleAmount r"
  "raffleAmount (r\<lparr>entryCount := n\<rparr>) = raffleAmount r"
  "raffleAmount (r\<lparr>totalCollected := m\<rparr>) = raffleAmount r"
  "raffleAmount (r\<lparr>status := x\<rparr>) = raffleAmount r"
  "raffleAmount (r\<lparr>vrfRequestId := y\<rparr>) = raffleAmount r"
  "raffleAmount (r\<lparr>winnerIndex := z\<rparr>) = raffleAmount r"
  by (simp_all add: raffleAmount_def)

lemma refund_inv:
  assumes inv: "state_inv s" and ok: "refund s sender now rId = Inr s'"
  shows "state_inv s'"
proof -
  let ?r = "raffles s rId"
  let ?amt = "raffleAmount ?r"
  let ?r1 = "?r\<lparr> hasEntered := hasEntered ?r - {sender},
                  entryCount := entryCount ?r - 1,
                  totalCollected := totalCollected ?r - ?amt \<rparr>"
  let ?s1 = "s\<lparr>raffles := (raffles s)(rId := ?r1)\<rparr>"
  from ok have k: "1 \<le> rId" "rId < nextRaffleId s"
    and mem: "sender \<in> hasEntered ?r"
    by (simp_all add: refund_def Let_def split: if_splits)
  from ok have act: "status ?r = Active"
    by (simp add: refund_def Let_def split: if_splits) blast+
  from ok have ge: "?amt \<le> totalCollected ?r"
    by (simp add: refund_def Let_def raffleAmount_def split: if_splits)
  from ok have s2: "paymentToken_transfer ?s1 sender ?amt = Some s'"
    by (simp add: refund_def Let_def raffleAmount_def split: if_splits option.splits)
  have ri: "raffle_inv ?r" using inv by (rule state_inv_raffle)
  have fin: "finite (hasEntered ?r)" using ri by (simp add: raffle_inv_def)
  have tc: "totalCollected ?r = card (hasEntered ?r) * ?amt"
    using ri act by (simp add: raffle_inv_def members_sum_card)
  have c1: "card (hasEntered ?r - {sender}) = card (hasEntered ?r) - 1"
    using fin mem by simp
  have ms: "members_sum ?r1 = totalCollected ?r - ?amt"
    by (simp add: members_sum_card c1 tc diff_mult_distrib)
  have r1: "raffle_inv ?r1"
    unfolding raffle_inv_def
  proof (intro conjI impI)
    show "finite (hasEntered ?r1)" using fin by simp
    show "entryCount ?r1 = card (hasEntered ?r1)"
      using ri c1 by (simp add: raffle_inv_def)
    show "entryCount ?r1 \<le> MAX_UINT256" using ri by (auto simp: raffle_inv_def)
    show "totalCollected ?r1 = members_sum ?r1" using ms by simp
    show "totalCollected ?r1 = 0" if "status ?r1 = Finalized" using that act by simp
    show "incentiveAmount ?r1 \<le> entryCost ?r1" if "raffleType ?r1 = IncentiveBased"
      using that ri by (simp add: raffle_inv_def)
    show "0 < entryCount ?r1" if "status ?r1 = AwaitingVRF" using that act by simp
    show "hasEntered ?r1 = {}" if "status ?r1 = Inactive" using that act by simp
  qed
  have st: "status ?r1 \<noteq> Inactive" using act by simp
  note f = raffles_transfer[OF s2]
  have b: "balanceOf (tok s) (self s) \<le> balanceOf (tok s') (self s) + ?amt"
    using balance_transfer[OF s2] by simp
  show ?thesis
    by (rule state_inv_upd[OF inv k r1 st]) (use f b ge in simp_all)
qed

lemma joinIncentiveRaffle_inv:
  assumes inv: "state_inv s" and ns: "sender \<noteq> self s"
    and ok: "joinIncentiveRaffle s sender rId paymentAddress sig = Inr s'"
  shows "state_inv s'"
proof -
  let ?r = "raffles s rId"
  let ?amt = "entryCost ?r - incentiveAmount ?r"
  let ?r1 = "?r\<lparr> hasEntered := insert sender (hasEntered ?r),
                  entryCount := entryCount ?r + 1,
                  totalCollected := totalCollected ?r + ?amt \<rparr>"
  let ?s1 = "s\<lparr> nonces := (nonces s)(sender := nonces s sender + 1),
                raffles := (raffles s)(rId := ?r1) \<rparr>"
  from ok have k: "1 \<le> rId" "rId < nextRaffleId s"
    and act: "status ?r = Active" and new: "sender \<notin> hasEntered ?r"
    and ty: "raffleType ?r = IncentiveBased"
    and le: "incentiveAmount ?r \<le> entryCost ?r"
    and mx: "entryCount ?r + 1 \<le> MAX_UINT256"
    by (simp_all add: joinIncentiveRaffle_def Let_def split: if_splits)
  from ok obtain s2 s3 where s2: "paymentToken_transferFrom ?s1 sender (entryCost ?r) = Some s2"
    and s3: "paymentToken_transfer s2 paymentAddress (incentiveAmount ?r) = Some s3"
    and s': "s' = s3 \<or> s' = s3\<lparr>raffles := (raffles s3)(rId := ?r1\<lparr>status := Closed\<rparr>)\<rparr>"
    by (simp add: joinIncentiveRaffle_def Let_def split: if_splits option.splits)
  have ri: "raffle_inv ?r" using inv by (rule state_inv_raffle)
  have r1: "raffle_inv ?r1" "raffle_inv (?r1\<lparr>status := Closed\<rparr>)"
    using ri act new ty mx by (auto simp: raffle_inv_def members_sum_card raffleAmount_def)
  have st: "status ?r1 \<noteq> Inactive" using act by simp
  note f2 = raffles_transferFrom[OF s2]
  note f3 = raffles_transfer[OF s3]
  have b2: "balanceOf (tok s2) (self s) = balanceOf (tok s) (self s) + entryCost ?r"
    using balance_transferFrom[OF s2] ns by simp
  have b3: "balanceOf (tok s2) (self s) \<le> balanceOf (tok s3) (self s) + incentiveAmount ?r"
    using balance_transfer[OF s3] f2 by simp
  have b: "balanceOf (tok s) (self s) + ?amt \<le> balanceOf (tok s3) (self s)"
    using b2 b3 le by linarith
  from s' show ?thesis
  proof
    assume "s' = s3"
    then show ?thesis
      using state_inv_upd[OF inv k r1(1) st, of s'] f2 f3 b by simp
  next
    assume e: "s' = s3\<lparr>raffles := (raffles s3)(rId := ?r1\<lparr>status := Closed\<rparr>)\<rparr>"
    show ?thesis
      by (rule state_inv_upd[OF inv k r1(2)]) (use e f2 f3 b in simp_all)
  qed
qed

lemma finalizePoolRaffle_inv:
  assumes inv: "state_inv s" and k: "1 \<le> rId" "rId < nextRaffleId s"
    and ok: "finalizePoolRaffle s rId = Inr s'"
  shows "state_inv s'"
proof -
  let ?r = "raffles s rId"
  let ?r1 = "?r\<lparr>status := Finalized, totalCollected := 0\<rparr>"
  let ?s1 = "s\<lparr>raffles := (raffles s)(rId := ?r1)\<rparr>"
  have ri: "raffle_inv ?r" using inv by (rule state_inv_raffle)
  have r1: "raffle_inv ?r1" using ri by (auto simp: raffle_inv_def)
  have st: "status ?r1 \<noteq> Inactive" by simp
  show ?thesis
  proof (cases "totalCollected ?r > 0")
    case True
    with ok obtain s2 where s2: "paymentToken_transfer ?s1 (payoutAddress ?r) (totalCollected ?r) = Some s2"
      and s': "s' = s2"
      by (auto simp: finalizePoolRaffle_def Let_def split: option.splits)
    note f = raffles_transfer[OF s2]
    have b: "balanceOf (tok s) (self s) \<le> balanceOf (tok s2) (self s) + totalCollected ?r"
      using balance_transfer[OF s2] by simp
    show ?thesis
      by (rule state_inv_upd[OF inv k r1 st]) (use s' f b in simp_all)
  next
    case False
    with ok have s': "s' = ?s1" by (auto simp: finalizePoolRaffle_def Let_def)
    show ?thesis
      by (rule state_inv_upd[OF inv k r1 st]) (use s' False in simp_all)
  qed
qed

lemma members_sum_upd [simp]:
  "members_sum (r\<lparr>status := x\<rparr>) = members_sum r"
  "members_sum (r\<lparr>vrfRequestId := y\<rparr>) = members_sum r"
  "members_sum (r\<lparr>winnerIndex := z\<rparr>) = members_sum r"
  by (simp_all add: members_sum_def raffleAmount_def)

lemma requestVRF_inv:
  assumes inv: "state_inv s" and k: "1 \<le> rId" "rId < nextRaffleId s"
    and act: "status (raffles s rId) = Active \<or> status (raffles s rId) = Closed"
    and ok: "requestVRF s rId requestId = Inr s'"
  shows "state_inv s'"
proof -
  let ?r = "raffles s rId"
  have ri: "raffle_inv ?r" using inv by (rule state_inv_raffle)
  show ?thesis
  proof (cases "entryCount ?r = 0")
    case True
    let ?r1 = "?r\<lparr>status := Finalized\<rparr>"
    from ok True have s': "s' = s\<lparr>raffles := (raffles s)(rId := ?r1)\<rparr>"
      by (simp add: requestVRF_def Let_def)
    have r1: "raffle_inv ?r1"
      using ri True act by (auto simp: raffle_inv_def members_sum_def)
    show ?thesis
      by (rule state_inv_upd[OF inv k r1]) (use s' in simp_all)
  next
    case False
    let ?r1 = "?r\<lparr>vrfRequestId := requestId, status := AwaitingVRF\<rparr>"
    from ok False have s': "raffles s' = (raffles s)(rId := ?r1)"
        "nextRaffleId s' = nextRaffleId s" "self s' = self s" "tok s' = tok s"
      by (auto simp: requestVRF_def Let_def)
    have r1: "raffle_inv ?r1"
      using ri False act by (auto simp: raffle_inv_def card_gt_0_iff)
    show ?thesis
      by (rule state_inv_upd[OF inv k r1]) (use s' in simp_all)
  qed
qed

lemma state_inv_nonces:
  "state_inv (s\<lparr>nonces := n\<rparr>) = state_inv s"
  by (simp add: state_inv_def escrow_total_def)

lemma endRaffle_inv:
  assumes inv: "state_inv s" and ok: "endRaffle s sender now rId sig requestId = Inr s'"
  shows "state_inv s'"
proof -
  let ?r = "raffles s rId"
  let ?s1 = "if sender = organizer ?r
             then s\<lparr>nonces := (nonces s)(sender := nonces s sender + 1)\<rparr> else s"
  from ok have k: "1 \<le> rId" "rId < nextRaffleId s"
    and act: "status ?r = Active \<or> status ?r = Closed"
    by (simp_all add: endRaffle_def Let_def split: if_splits)
  from ok have fin: "if isPool ?r then finalizePoolRaffle ?s1 rId = Inr s'
                     else requestVRF ?s1 rId requestId = Inr s'"
    by (simp add: endRaffle_def Let_def split: if_splits)
  have i1: "state_inv ?s1" and f: "raffles ?s1 = raffles s" "nextRaffleId ?s1 = nextRaffleId s"
    using inv by (simp_all add: state_inv_nonces)
  show ?thesis
  proof (cases "isPool ?r")
    case True
    with fin have "finalizePoolRaffle ?s1 rId = Inr s'" by simp
    then show ?thesis using finalizePoolRaffle_inv[OF i1, of rId s'] k f by simp
  next
    case False
    with fin have "requestVRF ?s1 rId requestId = Inr s'" by simp
    then show ?thesis using requestVRF_inv[OF i1, of rId requestId s'] k f act by simp
  qed
qed

lemma fulfillRandomWords_inv:
  assumes inv: "state_inv s" and ok: "fulfillRandomWords s requestId randomWords = Inr s'"
  shows "state_inv s'"
proof (cases "fulfilled (vrfRequests s requestId)")
  case True
  with ok have "s' = s" by (simp add: fulfillRandomWords_def Let_def split: if_splits)
  with inv show ?thesis by simp
next
  case False
  let ?q = "vrfRequests s requestId"
  let ?k = "raffleId ?q"
  let ?r = "raffles s ?k"
  let ?s1 = "s\<lparr>vrfRequests := (vrfRequests s)(requestId := ?q\<lparr>fulfilled := True\<rparr>)\<rparr>"
  from ok False have aw: "status ?r = AwaitingVRF"
    by (simp add: fulfillRandomWords_def Let_def split: if_splits)
  from ok False aw obtain w ws where ws: "randomWords = w # ws"
    by (cases randomWords) (simp_all add: fulfillRandomWords_def Let_def split: if_splits)
  let ?r1 = "?r\<lparr> winnerIndex := w mod entryCount ?r + 1, status := Finalized,
                  totalCollected := 0 \<rparr>"
  let ?s2 = "?s1\<lparr>raffles := (raffles ?s1)(?k := ?r1)\<rparr>"
  from inv have "?k = 0 \<or> nextRaffleId s \<le> ?k \<longrightarrow> status ?r = Inactive"
    by (simp add: state_inv_def)
  with aw have "?k \<noteq> 0 \<and> \<not> nextRaffleId s \<le> ?k" by auto
  then have k: "1 \<le> ?k" "?k < nextRaffleId s" by simp_all
  have ri: "raffle_inv ?r" using inv by (rule state_inv_raffle)
  have r1: "raffle_inv ?r1" using ri by (simp add: raffle_inv_def)
  have st: "status ?r1 \<noteq> Inactive" by simp
  show ?thesis
  proof (cases "totalCollected ?r > 0")
    case True
    with ok False aw ws have s3: "paymentToken_transfer ?s2 (payoutAddress ?r) (totalCollected ?r) = Some s'"
      by (simp add: fulfillRandomWords_def Let_def split: if_splits option.splits)
    note f = raffles_transfer[OF s3]
    have b: "balanceOf (tok s) (self s) \<le> balanceOf (tok s') (self s) + totalCollected ?r"
      using balance_transfer[OF s3] by simp
    show ?thesis
      by (rule state_inv_upd[OF inv k r1 st]) (use f b in simp_all)
  next
    case z: False
    with ok False aw ws have s': "s' = ?s2"
      by (simp add: fulfillRandomWords_def Let_def split: if_splits)
    show ?thesis
      by (rule state_inv_upd[OF inv k r1 st]) (use s' z in simp_all)
  qed
qed

lemma createRaffle_inv:
  assumes inv: "state_inv s"
    and ok: "createRaffle s sender now ty cost inc lim dl tgt pool payout sig = Inr s'"
  shows "state_inv s'"
proof -
  let ?n = "nextRaffleId s"
  let ?r = "(raffles s ?n)\<lparr> id_r := ?n, organizer := sender, status := Active,
               raffleType := ty, entryCost := cost, incentiveAmount := inc, entryLimit := lim,
               deadline := dl, targetAmount := tgt, isPool := pool, payoutAddress := payout \<rparr>"
  from ok have s': "s' = s\<lparr> nonces := (nonces s)(sender := nonces s sender + 1),
                            nextRaffleId := ?n + 1, raffles := (raffles s)(?n := ?r) \<rparr>"
    by (simp add: createRaffle_def Let_def split: if_splits)
  from ok have le: "ty = IncentiveBased \<longrightarrow> inc \<le> cost"
    by (simp add: createRaffle_def Let_def split: if_splits) auto
  have old: "raffle_inv (raffles s ?n)" "status (raffles s ?n) = Inactive" and n1: "1 \<le> ?n"
    using inv by (simp_all add: state_inv_def)
  have r: "raffle_inv ?r"
    using old le by (simp add: raffle_inv_def members_sum_def)
  have tc: "totalCollected ?r = 0"
    using old by (simp add: raffle_inv_def members_sum_def)
  have "escrow_total s' = (\<Sum>i = 1..<Suc ?n. totalCollected (((raffles s)(?n := ?r)) i))"
    by (simp add: escrow_total_def s')
  also have "\<dots> = (\<Sum>i = 1..<?n. totalCollected (((raffles s)(?n := ?r)) i)) + totalCollected ?r"
    using n1 by (simp add: sum.atLeastLessThan_Suc)
  also have "(\<Sum>i = 1..<?n. totalCollected (((raffles s)(?n := ?r)) i))
             = (\<Sum>i = 1..<?n. totalCollected (raffles s i))"
    by (rule sum.cong) auto
  finally have e: "escrow_total s' = escrow_total s"
    using tc by (simp add: escrow_total_def)
  have "\<forall>i. raffle_inv (raffles s' i)"
    using inv r by (simp add: state_inv_def s')
  moreover have "\<forall>i. i = 0 \<or> nextRaffleId s' \<le> i \<longrightarrow> status (raffles s' i) = Inactive"
    using inv by (auto simp: state_inv_def s')
  moreover have "escrow_total s' \<le> balanceOf (tok s') (self s')"
    using inv e by (simp add: state_inv_def s')
  ultimately show ?thesis by (simp add: state_inv_def s')
qed

lemma admin_inv:
  "state_inv s \<Longrightarrow> updateAppServerSigner s sender a = Inr s' \<Longrightarrow> state_inv s'"
  "state_inv s \<Longrightarrow> pause s sender = Inr s' \<Longrightarrow> state_inv s'"
  "state_inv s \<Longrightarrow> unpause s sender = Inr s' \<Longrightarrow> state_inv s'"
  by (auto simp: updateAppServerSigner_def pause_def unpause_def state_inv_def escrow_total_def
           split: if_splits)

lemma token_moves_inv:
  "state_inv s \<Longrightarrow> src \<noteq> self s \<Longrightarrow> exec s (TokenTransfer src dst amount) = Inr s'
     \<Longrightarrow> state_inv s'"
  "state_inv s \<Longrightarrow> exec s (TokenApprove holder spender amount) = Inr s' \<Longrightarrow> state_inv s'"
  by (auto simp: state_inv_def escrow_total_def token_transfer_def Let_def
           split: if_splits option.splits)

lemma constructor_inv:
  "constructor_V5 t this sender p a v = Inr s0 \<Longrightarrow> state_inv s0"
  by (auto simp: constructor_V5_def state_inv_def raffle_inv_def zero_Raffle_def
        members_sum_def escrow_total_def split: if_splits)

lemma exec_inv:
  assumes inv: "state_inv s" and ns: "acts_for c \<noteq> Some (self s)"
    and ok: "exec s c = Inr s'"
  shows "state_inv s'"
proof (cases c)
  case (CreateRaffle sender now ty cost inc lim dl tgt pool payout sig)
  with inv ok show ?thesis using createRaffle_inv by simp
next
  case (EnterRaffle sender rId)
  with inv ns ok show ?thesis using enterRaffle_inv by simp
next
  case (JoinIncentiveRaffle sender rId paymentAddress sig)
  with inv ns ok show ?thesis using joinIncentiveRaffle_inv by simp
next
  case (Refund sender now rId)
  with inv ok show ?thesis using refund_inv by simp
next
  case (EndRaffle sender now rId sig requestId)
  with inv ok show ?thesis using endRaffle_inv by simp
next
  case (FulfillRandomWords requestId randomWords)
  with inv ok show ?thesis using fulfillRandomWords_inv by simp
next
  case (UpdateAppServerSigner sender newSigner)
  with inv ok show ?thesis using admin_inv(1) by simp
next
  case (Pause sender)
  with inv ok show ?thesis using admin_inv(2) by simp
next
  case (Unpause sender)
  with inv ok show ?thesis using admin_inv(3) by simp
next
  case (TokenTransfer src dst amount)
  with inv ns ok show ?thesis using token_moves_inv(1)[of s src dst amount s'] by simp
next
  case (TokenApprove holder spender amount)
  with inv ok show ?thesis using token_moves_inv(2)[of s holder spender amount s'] by simp
qed

lemma step_inv: "state_inv s \<Longrightarrow> state_inv (step s c)"
  by (auto simp: step_def split: sum.splits dest: exec_inv)

lemma run_inv: "state_inv s \<Longrightarrow> state_inv (run s cs)"
  unfolding run_def by (induction cs arbitrary: s) (simp_all add: step_inv)

section \<open>States reached from the constructor\<close>

lemma reached_inv:
  "constructor_V5 t this sender p a v = Inr s0 \<Longrightarrow> state_inv (run s0 cs)"
  using constructor_inv run_inv by blast

lemma state_inv_valid_id:
  assumes "state_inv s" and "status (raffles s k) \<noteq> Inactive"
  shows "1 \<le> k \<and> k < nextRaffleId s"
proof -
  from assms(1) have "k = 0 \<or> nextRaffleId s \<le> k \<longrightarrow> status (raffles s k) = Inactive"
    by (simp add: state_inv_def)
  with assms(2) have "k \<noteq> 0 \<and> \<not> nextRaffleId s \<le> k" by auto
  then show ?thesis by simp
qed

lemma state_inv_covered:
  assumes "state_inv s" and "status (raffles s k) \<noteq> Inactive"
  shows "totalCollected (raffles s k) \<le> balanceOf (tok s) (self s)"
proof -
  have "totalCollected (raffles s k) \<le> escrow_total s"
    using state_inv_valid_id[OF assms] escrow_total_ge by simp
  also have "\<dots> \<le> balanceOf (tok s) (self s)"
    using assms(1) by (simp add: state_inv_def)
  finally show ?thesis .
qed

lemma transfer_Some:
  "n \<le> balanceOf (tok s) (self s) \<Longrightarrow>
     paymentToken_transfer s a n \<noteq> None"
  by (simp add: paymentToken_transfer_def token_transfer_def)

section \<open>What no transaction changes\<close>

lemma raffle_frame_refl: "raffle_frame r r"
  by (simp add: raffle_frame_def)

lemma raffle_frame_trans: "raffle_frame r r' \<Longrightarrow> raffle_frame r' r'' \<Longrightarrow> raffle_frame r r''"
  by (auto simp: raffle_frame_def)

lemma enterRaffle_frame:
  "enterRaffle s sender rId = Inr s' \<Longrightarrow> raffle_frame (raffles s k) (raffles s' k)"
  by (auto simp: enterRaffle_def Let_def paymentToken_transferFrom_def raffle_frame_def
           split: if_splits option.splits)

lemma joinIncentiveRaffle_frame:
  "joinIncentiveRaffle s sender rId pa sig = Inr s' \<Longrightarrow>
     raffle_frame (raffles s k) (raffles s' k)"
  by (auto simp: joinIncentiveRaffle_def Let_def paymentToken_transferFrom_def
        paymentToken_transfer_def raffle_frame_def split: if_splits option.splits)

lemma refund_frame:
  "refund s sender now rId = Inr s' \<Longrightarrow> raffle_frame (raffles s k) (raffles s' k)"
  by (auto simp: refund_def Let_def paymentToken_transfer_def raffle_frame_def
           split: if_splits option.splits)

lemma finalizePoolRaffle_frame:
  "finalizePoolRaffle s rId = Inr s' \<Longrightarrow> raffle_frame (raffles s k) (raffles s' k)"
  by (auto simp: finalizePoolRaffle_def Let_def paymentToken_transfer_def raffle_frame_def
           split: if_splits option.splits)

lemma requestVRF_frame:
  "requestVRF s rId q = Inr s' \<Longrightarrow> status (raffles s rId) \<noteq> Finalized \<Longrightarrow>
     raffle_frame (raffles s k) (raffles s' k)"
  by (auto simp: requestVRF_def Let_def raffle_frame_def split: if_splits)

lemma endRaffle_frame:
  assumes ok: "endRaffle s sender now rId sig q = Inr s'"
  shows "raffle_frame (raffles s k) (raffles s' k)"
proof -
  let ?r = "raffles s rId"
  let ?s1 = "if sender = organizer ?r
             then s\<lparr>nonces := (nonces s)(sender := nonces s sender + 1)\<rparr> else s"
  from ok have act: "status ?r = Active \<or> status ?r = Closed"
    by (simp add: endRaffle_def Let_def split: if_splits)
  from ok have fin: "if isPool ?r then finalizePoolRaffle ?s1 rId = Inr s'
                     else requestVRF ?s1 rId q = Inr s'"
    by (simp add: endRaffle_def Let_def split: if_splits)
  have f: "raffles ?s1 = raffles s" by simp
  show ?thesis
  proof (cases "isPool ?r")
    case True
    with fin have "finalizePoolRaffle ?s1 rId = Inr s'" by simp
    from finalizePoolRaffle_frame[OF this, of k] show ?thesis by (simp only: f)
  next
    case False
    with fin have "requestVRF ?s1 rId q = Inr s'" by simp
    moreover have "status (raffles ?s1 rId) \<noteq> Finalized" using act by auto
    ultimately have "raffle_frame (raffles ?s1 k) (raffles s' k)" by (rule requestVRF_frame)
    then show ?thesis by (simp only: f)
  qed
qed

lemma fulfillRandomWords_frame:
  "fulfillRandomWords s q ws = Inr s' \<Longrightarrow> raffle_frame (raffles s k) (raffles s' k)"
  by (auto simp: fulfillRandomWords_def Let_def paymentToken_transfer_def raffle_frame_def
           split: if_splits option.splits list.splits)

lemma createRaffle_frame:
  "createRaffle s sender now ty cost inc lim dl tgt pool payout sig = Inr s' \<Longrightarrow>
     k \<noteq> nextRaffleId s \<Longrightarrow> raffle_frame (raffles s k) (raffles s' k)"
  by (auto simp: createRaffle_def Let_def raffle_frame_def split: if_splits)

lemma exec_frame:
  assumes inv: "state_inv s" and ok: "exec s c = Inr s'"
    and ex: "status (raffles s k) \<noteq> Inactive"
  shows "raffle_frame (raffles s k) (raffles s' k)"
proof (cases c)
  case (CreateRaffle sender now ty cost inc lim dl tgt pool payout sig)
  have "k \<noteq> nextRaffleId s" using state_inv_valid_id[OF inv ex] by simp
  with CreateRaffle ok show ?thesis using createRaffle_frame by simp
next
  case (EnterRaffle sender rId)
  with ok show ?thesis using enterRaffle_frame by simp
next
  case (JoinIncentiveRaffle sender rId paymentAddress sig)
  with ok show ?thesis using joinIncentiveRaffle_frame by simp
next
  case (Refund sender now rId)
  with ok show ?thesis using refund_frame by simp
next
  case (EndRaffle sender now rId sig requestId)
  with ok show ?thesis using endRaffle_frame by simp
next
  case (FulfillRandomWords requestId randomWords)
  with ok show ?thesis using fulfillRandomWords_frame by simp
next
  case (UpdateAppServerSigner sender newSigner)
  with ok show ?thesis
    by (auto simp: updateAppServerSigner_def raffle_frame_def split: if_splits)
next
  case (Pause sender)
  with ok show ?thesis by (auto simp: pause_def raffle_frame_def split: if_splits)
next
  case (Unpause sender)
  with ok show ?thesis by (auto simp: unpause_def raffle_frame_def split: if_splits)
next
  case (TokenTransfer src dst amount)
  with ok show ?thesis by (auto simp: raffle_frame_def split: option.splits)
next
  case (TokenApprove holder spender amount)
  with ok show ?thesis by (auto simp: raffle_frame_def)
qed

lemma step_frame:
  "state_inv s \<Longrightarrow> status (raffles s k) \<noteq> Inactive \<Longrightarrow>
     raffle_frame (raffles s k) (raffles (step s c) k)"
  by (auto simp: step_def raffle_frame_refl split: sum.splits dest: exec_frame)

lemma run_frame:
  "state_inv s \<Longrightarrow> status (raffles s k) \<noteq> Inactive \<Longrightarrow>
     raffle_frame (raffles s k) (raffles (run s cs) k)"
proof (induction cs arbitrary: s)
  case Nil
  then show ?case by (simp add: run_def raffle_frame_refl)
next
  case (Cons c cs)
  have a: "raffle_frame (raffles s k) (raffles (step s c) k)"
    using Cons.prems by (rule step_frame)
  then have "status (raffles (step s c) k) \<noteq> Inactive"
    using Cons.prems(2) by (simp add: raffle_frame_def)
  then have b: "raffle_frame (raffles (step s c) k) (raffles (run (step s c) cs) k)"
    using Cons.IH step_inv[OF Cons.prems(1)] by simp
  have "run s (c # cs) = run (step s c) cs" by (simp add: run_def)
  with raffle_frame_trans[OF a b] show ?case by simp
qed

section \<open>Effects of single operations\<close>

lemma joinIncentiveRaffle_effect:
  assumes ok: "joinIncentiveRaffle s sender rId pa sig = Inr s'"
  shows "incentiveAmount (raffles s rId) \<le> entryCost (raffles s rId)"
    and "totalCollected (raffles s' rId) = totalCollected (raffles s rId)
           + (entryCost (raffles s rId) - incentiveAmount (raffles s rId))"
    and "map fst (new_calls s s') =
           [CallTransferFrom sender (self s) (entryCost (raffles s rId)),
            CallTransfer pa (incentiveAmount (raffles s rId))]"
    and "status (raffles s rId) = Active" "raffleType (raffles s rId) = IncentiveBased"
  using ok
  by (auto simp: joinIncentiveRaffle_def Let_def paymentToken_transferFrom_def
        paymentToken_transfer_def new_calls_def split: if_splits option.splits)

lemma joinIncentiveRaffle_balances:
  assumes ok: "joinIncentiveRaffle s sender rId pa sig = Inr s'"
    and d: "sender \<noteq> self s" "sender \<noteq> pa" "pa \<noteq> self s"
  shows "balanceOf (tok s') sender + entryCost (raffles s rId) = balanceOf (tok s) sender"
    and "balanceOf (tok s') pa = balanceOf (tok s) pa + incentiveAmount (raffles s rId)"
    and "balanceOf (tok s') (self s) + incentiveAmount (raffles s rId)
           = balanceOf (tok s) (self s) + entryCost (raffles s rId)"
  using ok d
  by (auto simp: joinIncentiveRaffle_def Let_def paymentToken_transferFrom_def
        paymentToken_transfer_def token_transferFrom_def token_transfer_def
        split: if_splits option.splits)

lemma refund_effect:
  assumes ok: "refund s sender now rId = Inr s'"
  shows "map fst (new_calls s s') = [CallTransfer sender (raffleAmount (raffles s rId))]"
    and "totalCollected (raffles s' rId) + raffleAmount (raffles s rId)
           = totalCollected (raffles s rId)"
  using ok
  by (auto simp: refund_def Let_def paymentToken_transfer_def new_calls_def raffleAmount_def
           split: if_splits option.splits)

lemma finalizePoolRaffle_effect:
  assumes ok: "finalizePoolRaffle s rId = Inr s'"
  shows "status (raffles s' rId) = Finalized \<and> totalCollected (raffles s' rId) = 0
         \<and> paid_after_zeroing s s' rId"
  using ok
  by (auto simp: finalizePoolRaffle_def Let_def paymentToken_transfer_def new_calls_def
        paid_after_zeroing_def split: if_splits option.splits)

lemma fulfillRandomWords_effect:
  assumes ok: "fulfillRandomWords s q ws = Inr s'" and nf: "\<not> fulfilled (vrfRequests s q)"
  shows "status (raffles s' (raffleId (vrfRequests s q))) = Finalized
         \<and> totalCollected (raffles s' (raffleId (vrfRequests s q))) = 0
         \<and> paid_after_zeroing s s' (raffleId (vrfRequests s q))"
  using ok nf
  by (auto simp: fulfillRandomWords_def Let_def paymentToken_transfer_def new_calls_def
        paid_after_zeroing_def split: if_splits option.splits list.splits)

lemma requestVRF_no_entries:
  assumes inv: "state_inv s" and ok: "requestVRF s rId q = Inr s'"
    and z: "entryCount (raffles s rId) = 0" and nf: "status (raffles s rId) \<noteq> Finalized"
  shows "status (raffles s' rId) = Finalized \<and> totalCollected (raffles s' rId) = 0
         \<and> new_calls s s' = []"
proof -
  have "raffle_inv (raffles s rId)" using inv by (rule state_inv_raffle)
  with z nf have "totalCollected (raffles s rId) = 0"
    by (simp add: raffle_inv_def members_sum_card)
  with ok z show ?thesis by (auto simp: requestVRF_def Let_def new_calls_def)
qed

lemma endRaffle_cases:
  assumes ok: "endRaffle s sender now rId sig q = Inr s'"
  obtains s1 where "raffles s1 = raffles s" "extcalls s1 = extcalls s" "state_inv s1 = state_inv s"
    "status (raffles s rId) = Active \<or> status (raffles s rId) = Closed"
    "if isPool (raffles s rId) then finalizePoolRaffle s1 rId = Inr s'
     else requestVRF s1 rId q = Inr s'"
    "vrfRequests s1 = vrfRequests s"
proof -
  let ?r = "raffles s rId"
  let ?s1 = "if sender = organizer ?r
             then s\<lparr>nonces := (nonces s)(sender := nonces s sender + 1)\<rparr> else s"
  from ok have act: "status ?r = Active \<or> status ?r = Closed"
    by (simp add: endRaffle_def Let_def split: if_splits)
  from ok have fin: "if isPool ?r then finalizePoolRaffle ?s1 rId = Inr s'
                     else requestVRF ?s1 rId q = Inr s'"
    by (simp add: endRaffle_def Let_def split: if_splits)
  have "raffles ?s1 = raffles s" "extcalls ?s1 = extcalls s" "state_inv ?s1 = state_inv s"
    "vrfRequests ?s1 = vrfRequests s"
    by (simp_all add: state_inv_nonces)
  with act fin show thesis using that by blast
qed

section \<open>The bookkeeping of randomness requests is preserved\<close>

lemma vrf_inv_upd:
  assumes "vrf_inv s" and "vrfRequests s' = vrfRequests s"
    and "\<And>k. status (raffles s k) = AwaitingVRF \<Longrightarrow> raffles s' k = raffles s k"
  shows "vrf_inv s'"
  using assms by (auto simp: vrf_inv_def)

lemma enterRaffle_awaiting:
  "enterRaffle s sender rId = Inr s' \<Longrightarrow>
     vrfRequests s' = vrfRequests s
     \<and> (status (raffles s k) = AwaitingVRF \<longrightarrow> raffles s' k = raffles s k)"
  by (auto simp: enterRaffle_def Let_def paymentToken_transferFrom_def
           split: if_splits option.splits)

lemma joinIncentiveRaffle_awaiting:
  "joinIncentiveRaffle s sender rId pa sig = Inr s' \<Longrightarrow>
     vrfRequests s' = vrfRequests s
     \<and> (status (raffles s k) = AwaitingVRF \<longrightarrow> raffles s' k = raffles s k)"
  by (auto simp: joinIncentiveRaffle_def Let_def paymentToken_transferFrom_def
        paymentToken_transfer_def split: if_splits option.splits)

lemma refund_awaiting:
  "refund s sender now rId = Inr s' \<Longrightarrow>
     vrfRequests s' = vrfRequests s
     \<and> (status (raffles s k) = AwaitingVRF \<longrightarrow> raffles s' k = raffles s k)"
  by (auto simp: refund_def Let_def paymentToken_transfer_def
           split: if_splits option.splits)

lemma finalizePoolRaffle_awaiting:
  "finalizePoolRaffle s rId = Inr s' \<Longrightarrow> status (raffles s rId) \<noteq> AwaitingVRF \<Longrightarrow>
     vrfRequests s' = vrfRequests s
     \<and> (status (raffles s k) = AwaitingVRF \<longrightarrow> raffles s' k = raffles s k)"
  by (auto simp: finalizePoolRaffle_def Let_def paymentToken_transfer_def
           split: if_splits option.splits)

lemma createRaffle_awaiting:
  "createRaffle s sender now ty cost inc lim dl tgt pool payout sig = Inr s' \<Longrightarrow>
     status (raffles s (nextRaffleId s)) \<noteq> AwaitingVRF \<Longrightarrow>
     vrfRequests s' = vrfRequests s
     \<and> (status (raffles s k) = AwaitingVRF \<longrightarrow> raffles s' k = raffles s k)"
  by (auto simp: createRaffle_def Let_def split: if_splits)

lemma requestVRF_vrf_inv:
  assumes v: "vrf_inv s" and ok: "requestVRF s rId q = Inr s'"
    and act: "status (raffles s rId) \<noteq> AwaitingVRF" and k: "rId \<noteq> 0"
  shows "vrf_inv s'"
proof (cases "entryCount (raffles s rId) = 0")
  case True
  with ok have "vrfRequests s' = vrfRequests s"
    and "\<And>k. status (raffles s k) = AwaitingVRF \<Longrightarrow> raffles s' k = raffles s k"
    using act by (auto simp: requestVRF_def Let_def)
  with v show ?thesis by (rule vrf_inv_upd)
next
  case False
  with ok have s': "raffles s' = (raffles s)(rId := (raffles s rId)\<lparr>vrfRequestId := q,
                                                       status := AwaitingVRF\<rparr>)"
      "vrfRequests s' = (vrfRequests s)(q := \<lparr>raffleId = rId, fulfilled = False\<rparr>)"
    by (auto simp: requestVRF_def Let_def)
  show ?thesis
    unfolding vrf_inv_def
  proof (intro allI impI)
    fix q'
    assume h: "raffleId (vrfRequests s' q') \<noteq> 0 \<and> \<not> fulfilled (vrfRequests s' q')"
    show "status (raffles s' (raffleId (vrfRequests s' q'))) = AwaitingVRF
          \<and> vrfRequestId (raffles s' (raffleId (vrfRequests s' q'))) = q'"
    proof (cases "q' = q")
      case True
      then show ?thesis by (simp add: s')
    next
      case ne: False
      with h have h0: "raffleId (vrfRequests s q') \<noteq> 0 \<and> \<not> fulfilled (vrfRequests s q')"
        by (simp add: s')
      with v have a: "status (raffles s (raffleId (vrfRequests s q'))) = AwaitingVRF
          \<and> vrfRequestId (raffles s (raffleId (vrfRequests s q'))) = q'"
        by (simp add: vrf_inv_def)
      with act have "raffleId (vrfRequests s q') \<noteq> rId" by auto
      with a ne show ?thesis by (simp add: s')
    qed
  qed
qed

lemma endRaffle_vrf_inv:
  assumes v: "vrf_inv s" and ok: "endRaffle s sender now rId sig q = Inr s'"
  shows "vrf_inv s'"
proof -
  from ok have k: "rId \<noteq> 0" by (simp add: endRaffle_def Let_def split: if_splits)
  from ok obtain s1 where s1: "raffles s1 = raffles s"
    and act: "status (raffles s rId) = Active \<or> status (raffles s rId) = Closed"
    and fin: "if isPool (raffles s rId) then finalizePoolRaffle s1 rId = Inr s'
              else requestVRF s1 rId q = Inr s'"
    and vq: "vrfRequests s1 = vrfRequests s"
    by (rule endRaffle_cases)
  have v1: "vrf_inv s1" using v s1 vq by (simp add: vrf_inv_def)
  have na: "status (raffles s1 rId) \<noteq> AwaitingVRF" using act s1 by auto
  show ?thesis
  proof (cases "isPool (raffles s rId)")
    case True
    with fin have f: "finalizePoolRaffle s1 rId = Inr s'" by simp
    from finalizePoolRaffle_awaiting[OF f na] have "vrfRequests s' = vrfRequests s1"
      and "\<And>k. status (raffles s1 k) = AwaitingVRF \<Longrightarrow> raffles s' k = raffles s1 k"
      by auto
    with v1 show ?thesis by (rule vrf_inv_upd)
  next
    case False
    with fin have "requestVRF s1 rId q = Inr s'" by simp
    from requestVRF_vrf_inv[OF v1 this na k] show ?thesis .
  qed
qed

lemma fulfillRandomWords_vrf_inv:
  assumes v: "vrf_inv s" and ok: "fulfillRandomWords s q ws = Inr s'"
  shows "vrf_inv s'"
proof (cases "fulfilled (vrfRequests s q)")
  case True
  with ok have "s' = s" by (simp add: fulfillRandomWords_def Let_def split: if_splits)
  with v show ?thesis by simp
next
  case False
  let ?k = "raffleId (vrfRequests s q)"
  from ok False have k0: "?k \<noteq> 0"
    by (simp add: fulfillRandomWords_def Let_def split: if_splits)
  from ok False have s': "vrfRequests s' = (vrfRequests s)(q := (vrfRequests s q)\<lparr>fulfilled := True\<rparr>)"
      "\<And>k. k \<noteq> ?k \<Longrightarrow> raffles s' k = raffles s k"
    by (auto simp: fulfillRandomWords_def Let_def paymentToken_transfer_def
             split: if_splits option.splits list.splits)
  from v k0 False have vq: "vrfRequestId (raffles s ?k) = q" by (simp add: vrf_inv_def)
  show ?thesis
    unfolding vrf_inv_def
  proof (intro allI impI)
    fix q'
    assume h: "raffleId (vrfRequests s' q') \<noteq> 0 \<and> \<not> fulfilled (vrfRequests s' q')"
    then have ne: "q' \<noteq> q" by (auto simp: s')
    with h have h0: "raffleId (vrfRequests s q') \<noteq> 0 \<and> \<not> fulfilled (vrfRequests s q')"
      by (simp add: s')
    with v have a: "status (raffles s (raffleId (vrfRequests s q'))) = AwaitingVRF
          \<and> vrfRequestId (raffles s (raffleId (vrfRequests s q'))) = q'"
      by (simp add: vrf_inv_def)
    with vq ne have "raffleId (vrfRequests s q') \<noteq> ?k" by auto
    with a ne show "status (raffles s' (raffleId (vrfRequests s' q'))) = AwaitingVRF
          \<and> vrfRequestId (raffles s' (raffleId (vrfRequests s' q'))) = q'"
      by (simp add: s')
  qed
qed

lemma exec_vrf_inv:
  assumes inv: "state_inv s" and v: "vrf_inv s" and ok: "exec s c = Inr s'"
  shows "vrf_inv s'"
proof (cases c)
  case (CreateRaffle sender now ty cost inc lim dl tgt pool payout sig)
  have "status (raffles s (nextRaffleId s)) = Inactive"
    using inv by (simp add: state_inv_def)
  then have na: "status (raffles s (nextRaffleId s)) \<noteq> AwaitingVRF" by simp
  from CreateRaffle ok
  have "createRaffle s sender now ty cost inc lim dl tgt pool payout sig = Inr s'" by simp
  from createRaffle_awaiting[OF this na] have "vrfRequests s' = vrfRequests s"
    and "\<And>k. status (raffles s k) = AwaitingVRF \<Longrightarrow> raffles s' k = raffles s k"
    by auto
  with v show ?thesis by (rule vrf_inv_upd)
next
  case (EnterRaffle sender rId)
  with ok have "enterRaffle s sender rId = Inr s'" by simp
  from enterRaffle_awaiting[OF this] have "vrfRequests s' = vrfRequests s"
    and "\<And>k. status (raffles s k) = AwaitingVRF \<Longrightarrow> raffles s' k = raffles s k"
    by auto
  with v show ?thesis by (rule vrf_inv_upd)
next
  case (JoinIncentiveRaffle sender rId paymentAddress sig)
  with ok have "joinIncentiveRaffle s sender rId paymentAddress sig = Inr s'" by simp
  from joinIncentiveRaffle_awaiting[OF this] have "vrfRequests s' = vrfRequests s"
    and "\<And>k. status (raffles s k) = AwaitingVRF \<Longrightarrow> raffles s' k = raffles s k"
    by auto
  with v show ?thesis by (rule vrf_inv_upd)
next
  case (Refund sender now rId)
  with ok have "refund s sender now rId = Inr s'" by simp
  from refund_awaiting[OF this] have "vrfRequests s' = vrfRequests s"
    and "\<And>k. status (raffles s k) = AwaitingVRF \<Longrightarrow> raffles s' k = raffles s k"
    by auto
  with v show ?thesis by (rule vrf_inv_upd)
next
  case (EndRaffle sender now rId sig requestId)
  with v ok show ?thesis using endRaffle_vrf_inv by simp
next
  case (FulfillRandomWords requestId randomWords)
  with v ok show ?thesis using fulfillRandomWords_vrf_inv by simp
next
  case (UpdateAppServerSigner sender newSigner)
  with v ok show ?thesis
    by (auto simp: updateAppServerSigner_def vrf_inv_def split: if_splits)
next
  case (Pause sender)
  with v ok show ?thesis by (auto simp: pause_def vrf_inv_def split: if_splits)
next
  case (Unpause sender)
  with v ok show ?thesis by (auto simp: unpause_def vrf_inv_def split: if_splits)
next
  case (TokenTransfer src dst amount)
  with v ok show ?thesis by (auto simp: vrf_inv_def split: option.splits)
next
  case (TokenApprove holder spender amount)
  with v ok show ?thesis by (auto simp: vrf_inv_def)
qed

lemma step_vrf_inv: "state_inv s \<Longrightarrow> vrf_inv s \<Longrightarrow> vrf_inv (step s c)"
  by (auto simp: step_def split: sum.splits dest: exec_vrf_inv)

lemma run_vrf_inv: "state_inv s \<Longrightarrow> vrf_inv s \<Longrightarrow> vrf_inv (run s cs)"
proof (induction cs arbitrary: s)
  case Nil
  then show ?case by (simp add: run_def)
next
  case (Cons c cs)
  have "vrf_inv (run (step s c) cs)"
    using Cons.IH[OF step_inv[OF Cons.prems(1)] step_vrf_inv[OF Cons.prems]] .
  then show ?case by (simp add: run_def)
qed

lemma reached_vrf_inv:
  assumes "constructor_V5 t this sender p a v = Inr s0"
  shows "vrf_inv (run s0 cs)"
proof -
  from assms have "vrf_inv s0"
    by (auto simp: constructor_V5_def vrf_inv_def zero_VRFRequest_def split: if_splits)
  with constructor_inv[OF assms] show ?thesis by (rule run_vrf_inv)
qed

section \<open>Operations that succeed\<close>

lemma member_exists:
  assumes inv: "state_inv s" and mem: "sender \<in> hasEntered (raffles s rId)"
  shows "rId \<noteq> 0" "rId < nextRaffleId s" "0 < entryCount (raffles s rId)"
    "status (raffles s rId) \<noteq> Inactive"
proof -
  have ri: "raffle_inv (raffles s rId)" using inv by (rule state_inv_raffle)
  with mem show ex: "status (raffles s rId) \<noteq> Inactive" by (auto simp: raffle_inv_def)
  from state_inv_valid_id[OF inv ex] show "rId \<noteq> 0" "rId < nextRaffleId s" by simp_all
  from ri mem show "0 < entryCount (raffles s rId)"
    by (auto simp: raffle_inv_def card_gt_0_iff)
qed

lemma refund_succeeds:
  assumes inv: "state_inv s" and np: "\<not> paused s"
    and mem: "sender \<in> hasEntered (raffles s rId)"
    and act: "status (raffles s rId) = Active"
    and gate: "isPool (raffles s rId)
               \<or> (deadline (raffles s rId) + REFUND_GRACE_PERIOD \<le> MAX_UINT256
                   \<and> deadline (raffles s rId) + REFUND_GRACE_PERIOD < now)"
  shows "\<exists>s'. refund s sender now rId = Inr s'"
proof -
  let ?r = "raffles s rId"
  let ?amt = "if raffleType ?r = IncentiveBased then entryCost ?r - incentiveAmount ?r
              else entryCost ?r"
  let ?s1 = "s\<lparr>raffles := (raffles s)(rId := ?r\<lparr> hasEntered := hasEntered ?r - {sender},
                  entryCount := entryCount ?r - 1,
                  totalCollected := totalCollected ?r - ?amt \<rparr>)\<rparr>"
  note m = member_exists[OF inv mem]
  have ri: "raffle_inv ?r" using inv by (rule state_inv_raffle)
  have le: "raffleType ?r = IncentiveBased \<longrightarrow> incentiveAmount ?r \<le> entryCost ?r"
    using ri by (simp add: raffle_inv_def)
  have tc: "totalCollected ?r = entryCount ?r * raffleAmount ?r"
    using ri act by (simp add: raffle_inv_def members_sum_card)
  have amt: "?amt = raffleAmount ?r" by (simp add: raffleAmount_def)
  have ge: "?amt \<le> totalCollected ?r"
    using m(3) unfolding tc amt by (cases "entryCount ?r") simp_all
  have "totalCollected ?r \<le> balanceOf (tok s) (self s)"
    using state_inv_covered[OF inv m(4)] .
  with ge have "?amt \<le> balanceOf (tok ?s1) (self ?s1)" by simp
  then obtain s2 where s2: "paymentToken_transfer ?s1 sender ?amt = Some s2"
    using transfer_Some[of ?amt ?s1 sender] by auto
  have "refund s sender now rId = Inr s2"
    using np m(1,2,3) mem act gate le ge s2
    by (auto simp: refund_def Let_def)
  then show ?thesis by blast
qed

lemma finalizePoolRaffle_succeeds:
  assumes "totalCollected (raffles s rId) \<le> balanceOf (tok s) (self s)"
  shows "\<exists>s'. finalizePoolRaffle s rId = Inr s'"
proof (cases "0 < totalCollected (raffles s rId)")
  case True
  let ?s1 = "s\<lparr>raffles := (raffles s)(rId := (raffles s rId)\<lparr>status := Finalized,
                                                     totalCollected := 0\<rparr>)\<rparr>"
  from assms have "totalCollected (raffles s rId) \<le> balanceOf (tok ?s1) (self ?s1)" by simp
  then obtain s2 where
    "paymentToken_transfer ?s1 (payoutAddress (raffles s rId)) (totalCollected (raffles s rId))
       = Some s2"
    using transfer_Some[of "totalCollected (raffles s rId)" ?s1] by auto
  with True show ?thesis by (simp add: finalizePoolRaffle_def Let_def)
next
  case False
  then show ?thesis by (simp add: finalizePoolRaffle_def Let_def)
qed

lemma requestVRF_succeeds: "\<exists>s'. requestVRF s rId q = Inr s'"
  by (simp add: requestVRF_def Let_def)

lemma endRaffle_succeeds:
  assumes inv: "state_inv s" and np: "\<not> paused s"
    and act: "status (raffles s rId) = Active \<or> status (raffles s rId) = Closed"
    and auth: "sender = appServerSigner s \<or> sender = organizer (raffles s rId)"
    and timing: "sender \<noteq> appServerSigner s \<longrightarrow>
       (if isPool (raffles s rId)
        then targetAmount (raffles s rId) \<le> totalCollected (raffles s rId)
             \<or> deadline (raffles s rId) \<le> now
        else deadline (raffles s rId) \<le> now)"
    and sg: "sender = organizer (raffles s rId) \<longrightarrow>
       nonces s sender < MAX_UINT256
       \<and> recover (EndRaffleMsg rId sender (nonces s sender)) sig = Some (appServerSigner s)"
  shows "\<exists>s'. endRaffle s sender now rId sig q = Inr s'"
proof -
  let ?r = "raffles s rId"
  let ?s1 = "if sender = organizer ?r
             then s\<lparr>nonces := (nonces s)(sender := nonces s sender + 1)\<rparr> else s"
  have ex: "status ?r \<noteq> Inactive" using act by auto
  have k: "1 \<le> rId \<and> rId < nextRaffleId s" by (rule state_inv_valid_id[OF inv ex])
  have cov: "totalCollected (raffles ?s1 rId) \<le> balanceOf (tok ?s1) (self ?s1)"
    using state_inv_covered[OF inv ex] by simp
  have st: "\<not> (status ?r \<noteq> Active \<and> status ?r \<noteq> Closed)" using act by blast
  have na: "\<not> (sender \<noteq> appServerSigner s \<and> sender \<noteq> organizer ?r)"
    using auth by blast
  have nt1: "\<not> (sender \<noteq> appServerSigner s \<and> isPool ?r
                \<and> totalCollected ?r < targetAmount ?r \<and> now < deadline ?r)"
    using timing by (cases "isPool ?r") auto
  have nt2: "\<not> (sender \<noteq> appServerSigner s \<and> \<not> isPool ?r \<and> now < deadline ?r)"
    using timing by (cases "isPool ?r") auto
  have ns1: "\<not> (sender = organizer ?r \<and> nonces s sender + 1 > MAX_UINT256)"
    using sg by auto
  have ns2: "\<not> (sender = organizer ?r
                \<and> recover (EndRaffleMsg rId sender (nonces s sender)) sig
                     \<noteq> Some (appServerSigner s))"
    using sg by auto
  have vid: "\<not> (rId = 0 \<or> nextRaffleId s \<le> rId)" using k by auto
  have e: "endRaffle s sender now rId sig q =
             (if isPool ?r then finalizePoolRaffle ?s1 rId else requestVRF ?s1 rId q)"
    unfolding endRaffle_def Let_def
    by (simp only: np vid st na nt1 nt2 ns1 ns2 if_False not_not)
  show ?thesis
    unfolding e using finalizePoolRaffle_succeeds[OF cov] requestVRF_succeeds[of ?s1 rId q]
    by (cases "isPool ?r") simp_all
qed

section \<open>Evaluation of the example runs\<close>

lemmas eval_defs = run_def step_def createRaffle_def enterRaffle_def joinIncentiveRaffle_def
  refund_def endRaffle_def finalizePoolRaffle_def requestVRF_def fulfillRandomWords_def pause_def
  unpause_def updateAppServerSigner_def paymentToken_transfer_def paymentToken_transferFrom_def
  token_transfer_def token_transferFrom_def Let_def MAX_UINT256_def REFUND_GRACE_PERIOD_def
  ex_init_def ex_token_def zero_Raffle_def zero_VRFRequest_def ex_no_sig_def ex_pool_open_def
  ex_pool_final_def ex_pool_paused_def ex_trad_open_def ex_trad_closed_def ex_trad_awaiting_def
  ex_trad_final_def ex_incentive_open_def ex_incentive_joined_def ex_incentive_refunded_def
  ex_own_raffle_def ex_own_final_def ex_far_deadline_def constructor_V5_def
  ex_small_pool_open_def ex_small_pool_closed_def ex_small_incentive_open_def
  ex_small_incentive_closed_def
  numeral_2_eq_2[symmetric]

section \<open>Claims\<close>

subsection \<open>C1: the escrow ledger\<close>

text \<open>
  Claim C1 as stated fails: a raffle's \<open>totalCollected\<close> is not always the sum of its
  members' contributions. Finalization pays the balance out and sets it to zero, while
  \<open>hasEntered\<close> keeps every member. In the run below (create a pool raffle, 6 enters,
  the App Server ends it) raffle 1 is \<open>Finalized\<close> with member 6, balance 0, and a sum
  of contributions of 100.
\<close>

theorem C1_counterexample:
  "constructor_V5 ex_token 100 1 50 9 51 = Inr ex_init
   \<and> 6 \<in> hasEntered (raffles (run ex_init ex_pool_final) 1)
   \<and> status (raffles (run ex_init ex_pool_final) 1) = Finalized
   \<and> totalCollected (raffles (run ex_init ex_pool_final) 1) = 0
   \<and> members_sum (raffles (run ex_init ex_pool_final) 1) = 100
   \<and> totalCollected (raffles (run ex_init ex_pool_final) 1)
       \<noteq> members_sum (raffles (run ex_init ex_pool_final) 1)"
  by (simp add: eval_defs members_sum_def raffleAmount_def)

text \<open>
  Claim C1, amended: in every state reached from the constructor by any sequence of
  transactions, every raffle that is not \<open>Finalized\<close> has \<open>totalCollected\<close> equal to
  the sum over its current members of their raffle-portion contribution, every
  \<open>Finalized\<close> raffle has \<open>totalCollected = 0\<close>, and the token balance held by the
  contract is at least the sum of \<open>totalCollected\<close> over all raffles. Each transaction
  (\<open>enterRaffle\<close>, \<open>joinIncentiveRaffle\<close>, \<open>refund\<close>, \<open>endRaffle\<close>,
  \<open>fulfillRandomWords\<close> and the others) preserves the invariant \<open>state_inv\<close> from which
  this follows.
\<close>

theorem C1_ledger_invariant:
  assumes "constructor_V5 t this sender p a v = Inr s0" and "s = run s0 cs"
  shows "(status (raffles s i) \<noteq> Finalized \<longrightarrow>
            totalCollected (raffles s i) = members_sum (raffles s i))
       \<and> (status (raffles s i) = Finalized \<longrightarrow> totalCollected (raffles s i) = 0)
       \<and> escrow_total s \<le> balanceOf (tok s) (self s)"
proof -
  have "state_inv s" using assms constructor_inv run_inv by blast
  then show ?thesis by (simp add: state_inv_def raffle_inv_def)
qed

text \<open>
  The amended C1 at two reached states: after the entry (raffle 1 is \<open>Active\<close>, balance
  and sum are both 100, the contract holds 100) and after the ending (raffle 1 is
  \<open>Finalized\<close> with balance 0).
\<close>

theorem C1_ledger_invariant_witness:
  "constructor_V5 ex_token 100 1 50 9 51 = Inr ex_init
   \<and> status (raffles (run ex_init ex_pool_open) 1) = Active
   \<and> totalCollected (raffles (run ex_init ex_pool_open) 1) = 100
   \<and> members_sum (raffles (run ex_init ex_pool_open) 1) = 100
   \<and> escrow_total (run ex_init ex_pool_open) = 100
   \<and> balanceOf (tok (run ex_init ex_pool_open)) (self (run ex_init ex_pool_open)) = 100
   \<and> status (raffles (run ex_init ex_pool_final) 1) = Finalized
   \<and> totalCollected (raffles (run ex_init ex_pool_final) 1) = 0
   \<and> escrow_total (run ex_init ex_pool_final) \<le>
         balanceOf (tok (run ex_init ex_pool_final)) (self (run ex_init ex_pool_final))"
proof -
  have c: "constructor_V5 ex_token 100 1 50 9 51 = Inr ex_init"
    by (simp add: eval_defs)
  note a = C1_ledger_invariant [OF c refl, of ex_pool_open 1]
  note b = C1_ledger_invariant [OF c refl, of ex_pool_final 1]
  have st: "status (raffles (run ex_init ex_pool_open) 1) = Active"
           "status (raffles (run ex_init ex_pool_final) 1) = Finalized"
           "members_sum (raffles (run ex_init ex_pool_open) 1) = 100"
           "balanceOf (tok (run ex_init ex_pool_open)) (self (run ex_init ex_pool_open)) = 100"
           "escrow_total (run ex_init ex_pool_open) = 100"
    by (simp_all add: eval_defs members_sum_def raffleAmount_def escrow_total_def)
  show ?thesis using a b c st by simp
qed

subsection \<open>C2: a finalized raffle\<close>

text \<open>
  Claim C2 as stated fails for the callback: once a raffle has been finalized by its
  fulfillment, the request that correlates to it is marked \<open>fulfilled\<close>, and delivering
  the callback again returns without error (the duplicate is ignored). In Scenario A,
  after the fulfillment, raffle 1 is \<open>Finalized\<close>, request 77 correlates to it, and the
  callback for 77 succeeds.
\<close>

theorem C2_counterexample:
  "constructor_V5 ex_token 100 1 50 9 51 = Inr ex_init
   \<and> status (raffles (run ex_init ex_trad_final) 1) = Finalized
   \<and> raffleId (vrfRequests (run ex_init ex_trad_final) 77) = 1
   \<and> fulfillRandomWords (run ex_init ex_trad_final) 77 [7] = Inr (run ex_init ex_trad_final)"
  by (simp add: eval_defs)

text \<open>
  Claim C2, amended: for every raffle that is \<open>Finalized\<close> in a state reached from the
  constructor, \<open>endRaffle\<close> reverts, with \<open>RaffleNotActive\<close> (with \<open>ContractPaused\<close> while
  the contract is paused); a fulfillment callback whose request correlates to the raffle
  does not fail: that request is already marked fulfilled, and the callback returns
  without error and without any change of state; and the raffle is \<open>Finalized\<close> after
  every further sequence of transactions.
\<close>

theorem C2_finalized_is_final:
  assumes c: "constructor_V5 t this sender0 p a v = Inr s0" and s: "s = run s0 cs"
    and fin: "status (raffles s rId) = Finalized"
  shows "endRaffle s sender now rId sig q' =
           Inl (if paused s then ContractPaused else RaffleNotActive)
       \<and> (raffleId (vrfRequests s q) = rId \<longrightarrow> fulfillRandomWords s q ws = Inr s)
       \<and> status (raffles (run s cs') rId) = Finalized"
proof -
  have inv: "state_inv s" using c s reached_inv by simp
  have vinv: "vrf_inv s" using c s reached_vrf_inv by simp
  have ex: "status (raffles s rId) \<noteq> Inactive" using fin by simp
  have k: "1 \<le> rId \<and> rId < nextRaffleId s" by (rule state_inv_valid_id[OF inv ex])
  have e: "endRaffle s sender now rId sig q' =
             Inl (if paused s then ContractPaused else RaffleNotActive)"
    using k fin by (simp add: endRaffle_def Let_def)
  have f: "fulfillRandomWords s q ws = Inr s" if q: "raffleId (vrfRequests s q) = rId"
  proof -
    have "fulfilled (vrfRequests s q)"
    proof (rule ccontr)
      assume "\<not> fulfilled (vrfRequests s q)"
      with vinv q k have "status (raffles s rId) = AwaitingVRF"
        by (auto simp: vrf_inv_def)
      with fin show False by simp
    qed
    with q k show ?thesis by (simp add: fulfillRandomWords_def Let_def)
  qed
  have "raffle_frame (raffles s rId) (raffles (run s cs') rId)"
    by (rule run_frame[OF inv ex])
  then have "status (raffles (run s cs') rId) = Finalized"
    using fin by (simp add: raffle_frame_def)
  with e f show ?thesis by simp
qed

text \<open>
  The amended C2 in Scenario A after the fulfillment: \<open>endRaffle\<close> by the App Server
  reverts with \<open>RaffleNotActive\<close>, the repeated callback returns the same state, and a
  further attempt to enter and to end leaves raffle 1 \<open>Finalized\<close>.
\<close>

theorem C2_finalized_is_final_witness:
  "constructor_V5 ex_token 100 1 50 9 51 = Inr ex_init
   \<and> status (raffles (run ex_init ex_trad_final) 1) = Finalized
   \<and> \<not> paused (run ex_init ex_trad_final)
   \<and> endRaffle (run ex_init ex_trad_final) 9 0 1 ex_no_sig 78 = Inl RaffleNotActive
   \<and> raffleId (vrfRequests (run ex_init ex_trad_final) 77) = 1
   \<and> fulfilled (vrfRequests (run ex_init ex_trad_final) 77)
   \<and> fulfillRandomWords (run ex_init ex_trad_final) 77 [7] = Inr (run ex_init ex_trad_final)
   \<and> status (raffles (run (run ex_init ex_trad_final)
                         [EnterRaffle 6 1, EndRaffle 9 0 1 ex_no_sig 78]) 1) = Finalized"
proof -
  have c: "constructor_V5 ex_token 100 1 50 9 51 = Inr ex_init"
    by (simp add: eval_defs)
  have h: "status (raffles (run ex_init ex_trad_final) 1) = Finalized"
    by (simp add: eval_defs)
  have v: "\<not> paused (run ex_init ex_trad_final)"
          "raffleId (vrfRequests (run ex_init ex_trad_final) 77) = 1"
          "fulfilled (vrfRequests (run ex_init ex_trad_final) 77)"
    by (simp_all add: eval_defs)
  show ?thesis
    using C2_finalized_is_final [OF c refl h, of 9 0 ex_no_sig 78 77 "[7]"
                                   "[EnterRaffle 6 1, EndRaffle 9 0 1 ex_no_sig 78]"] c h v
    by simp
qed

subsection \<open>C3: duplicate delivery of the randomness callback\<close>

text \<open>
  Claim C3: for every request id and random words, delivering the same callback twice
  leaves the contract in the state that delivering it once leaves it in (a reverted
  delivery changes nothing), and once a delivery has returned, the next delivery of the
  same callback returns without error and without any change of state.
\<close>

theorem C3_fulfill_idempotent:
  "step (step s (FulfillRandomWords q ws)) (FulfillRandomWords q ws)
     = step s (FulfillRandomWords q ws)
   \<and> (fulfillRandomWords s q ws = Inr s' \<longrightarrow> fulfillRandomWords s' q ws = Inr s')"
proof -
  have again: "fulfillRandomWords s1 q ws = Inr s1" if "fulfillRandomWords s q ws = Inr s1" for s1
  proof (cases "fulfilled (vrfRequests s q)")
    case True
    with that have "s1 = s" by (simp add: fulfillRandomWords_def Let_def split: if_splits)
    with that show ?thesis by simp
  next
    case False
    with that have "raffleId (vrfRequests s1 q) = raffleId (vrfRequests s q)
        \<and> raffleId (vrfRequests s q) \<noteq> 0 \<and> fulfilled (vrfRequests s1 q)"
      by (auto simp: fulfillRandomWords_def Let_def paymentToken_transfer_def
               split: if_splits list.splits option.splits)
    then show ?thesis by (simp add: fulfillRandomWords_def Let_def)
  qed
  show ?thesis
    using again by (cases "fulfillRandomWords s q ws") (auto simp: step_def)
qed

text \<open>
  C3 in Scenario A: the first delivery of request 77 finalizes raffle 1, the second
  delivery returns the same state.
\<close>

theorem C3_fulfill_idempotent_witness:
  "fulfillRandomWords (run ex_init ex_trad_awaiting) 77 [7] = Inr (run ex_init ex_trad_final)
   \<and> fulfillRandomWords (run ex_init ex_trad_final) 77 [7] = Inr (run ex_init ex_trad_final)
   \<and> status (raffles (run ex_init ex_trad_awaiting) 1) = AwaitingVRF
   \<and> status (raffles (run ex_init ex_trad_final) 1) = Finalized"
proof -
  have f: "fulfillRandomWords (run ex_init ex_trad_awaiting) 77 [7]
             = Inr (run ex_init ex_trad_final)"
    by (simp add: eval_defs)
  have v: "status (raffles (run ex_init ex_trad_awaiting) 1) = AwaitingVRF"
          "status (raffles (run ex_init ex_trad_final) 1) = Finalized"
    by (simp_all add: eval_defs)
  show ?thesis
    using C3_fulfill_idempotent [of "run ex_init ex_trad_awaiting" 77 "[7]"
                                    "run ex_init ex_trad_final"] f v
    by simp
qed

subsection \<open>C4: finalization\<close>

text \<open>
  Claim C4: in a state reached from the constructor, each of the three finalization
  paths leaves the raffle \<open>Finalized\<close> with \<open>totalCollected = 0\<close>: \<open>endRaffle\<close> on a pool
  raffle, \<open>endRaffle\<close> on a traditional raffle without entries, and the fulfillment of
  an unfulfilled request. On the two paths that pay a prize, the only external call is
  the transfer of the whole former balance to \<open>payoutAddress\<close>, and the raffle storage at
  the moment of that call already has the status \<open>Finalized\<close> and the balance zero; the
  path without entries makes no external call.
\<close>

theorem C4_finalization:
  assumes c: "constructor_V5 t this sender0 p a v = Inr s0" and s: "s = run s0 cs"
  shows "(endRaffle s sender now rId sig q = Inr s' \<and> isPool (raffles s rId) \<longrightarrow>
            status (raffles s' rId) = Finalized \<and> totalCollected (raffles s' rId) = 0
            \<and> paid_after_zeroing s s' rId)
       \<and> (endRaffle s sender now rId sig q = Inr s' \<and> \<not> isPool (raffles s rId)
            \<and> entryCount (raffles s rId) = 0 \<longrightarrow>
            status (raffles s' rId) = Finalized \<and> totalCollected (raffles s' rId) = 0
            \<and> new_calls s s' = [])
       \<and> (fulfillRandomWords s q' ws = Inr s'' \<and> \<not> fulfilled (vrfRequests s q') \<longrightarrow>
            status (raffles s'' (raffleId (vrfRequests s q'))) = Finalized
            \<and> totalCollected (raffles s'' (raffleId (vrfRequests s q'))) = 0
            \<and> paid_after_zeroing s s'' (raffleId (vrfRequests s q')))"
proof -
  have inv: "state_inv s" using c s reached_inv by simp
  have pool: "status (raffles s' rId) = Finalized \<and> totalCollected (raffles s' rId) = 0
            \<and> paid_after_zeroing s s' rId"
    if ok: "endRaffle s sender now rId sig q = Inr s'" and ip: "isPool (raffles s rId)"
  proof -
    from ok obtain s1 where s1: "raffles s1 = raffles s" "extcalls s1 = extcalls s"
      and fin: "if isPool (raffles s rId) then finalizePoolRaffle s1 rId = Inr s'
                else requestVRF s1 rId q = Inr s'"
      by (rule endRaffle_cases)
    from fin ip have "finalizePoolRaffle s1 rId = Inr s'" by simp
    from finalizePoolRaffle_effect[OF this] show ?thesis
      by (simp add: paid_after_zeroing_def new_calls_def s1)
  qed
  have trad: "status (raffles s' rId) = Finalized \<and> totalCollected (raffles s' rId) = 0
            \<and> new_calls s s' = []"
    if ok: "endRaffle s sender now rId sig q = Inr s'" and ip: "\<not> isPool (raffles s rId)"
      and z: "entryCount (raffles s rId) = 0"
  proof -
    from ok obtain s1 where s1: "raffles s1 = raffles s" "extcalls s1 = extcalls s"
      and i1: "state_inv s1 = state_inv s"
      and act: "status (raffles s rId) = Active \<or> status (raffles s rId) = Closed"
      and fin: "if isPool (raffles s rId) then finalizePoolRaffle s1 rId = Inr s'
                else requestVRF s1 rId q = Inr s'"
      by (rule endRaffle_cases)
    from fin ip have r: "requestVRF s1 rId q = Inr s'" by simp
    have "status (raffles s1 rId) \<noteq> Finalized" using act s1 by auto
    from requestVRF_no_entries[OF _ r _ this] inv i1 z s1 show ?thesis
      by (simp add: new_calls_def)
  qed
  show ?thesis using pool trad fulfillRandomWords_effect by blast
qed

text \<open>
  C4 on the three paths: the App Server ends the pool raffle holding 100 (one transfer
  of 100 to address 7, made when the raffle is already \<open>Finalized\<close> with balance 0); the
  traditional raffle without entries is ended; request 77 of Scenario A is fulfilled (one
  transfer of 200 to address 7).
\<close>

theorem C4_finalization_witness:
  "constructor_V5 ex_token 100 1 50 9 51 = Inr ex_init
   \<and> endRaffle (run ex_init ex_pool_open) 9 0 1 ex_no_sig 0 = Inr (run ex_init ex_pool_final)
   \<and> isPool (raffles (run ex_init ex_pool_open) 1)
   \<and> totalCollected (raffles (run ex_init ex_pool_open) 1) = 100
   \<and> status (raffles (run ex_init ex_pool_final) 1) = Finalized
   \<and> totalCollected (raffles (run ex_init ex_pool_final) 1) = 0
   \<and> paid_after_zeroing (run ex_init ex_pool_open) (run ex_init ex_pool_final) 1
   \<and> endRaffle (run ex_init ex_own_raffle) 9 0 1 (Signature 9 (EndRaffleMsg 1 9 1)) 0
       = Inr (run ex_init ex_own_final)
   \<and> \<not> isPool (raffles (run ex_init ex_own_raffle) 1)
   \<and> entryCount (raffles (run ex_init ex_own_raffle) 1) = 0
   \<and> status (raffles (run ex_init ex_own_final) 1) = Finalized
   \<and> totalCollected (raffles (run ex_init ex_own_final) 1) = 0
   \<and> new_calls (run ex_init ex_own_raffle) (run ex_init ex_own_final) = []
   \<and> fulfillRandomWords (run ex_init ex_trad_awaiting) 77 [7] = Inr (run ex_init ex_trad_final)
   \<and> \<not> fulfilled (vrfRequests (run ex_init ex_trad_awaiting) 77)
   \<and> raffleId (vrfRequests (run ex_init ex_trad_awaiting) 77) = 1
   \<and> totalCollected (raffles (run ex_init ex_trad_awaiting) 1) = 200
   \<and> status (raffles (run ex_init ex_trad_final) 1) = Finalized
   \<and> totalCollected (raffles (run ex_init ex_trad_final) 1) = 0
   \<and> paid_after_zeroing (run ex_init ex_trad_awaiting) (run ex_init ex_trad_final) 1"
proof -
  have c: "constructor_V5 ex_token 100 1 50 9 51 = Inr ex_init"
    by (simp add: eval_defs)
  have e1: "endRaffle (run ex_init ex_pool_open) 9 0 1 ex_no_sig 0
              = Inr (run ex_init ex_pool_final)"
    by (simp add: eval_defs)
  have e2: "endRaffle (run ex_init ex_own_raffle) 9 0 1 (Signature 9 (EndRaffleMsg 1 9 1)) 0
              = Inr (run ex_init ex_own_final)"
    by (simp add: eval_defs)
  have e3: "fulfillRandomWords (run ex_init ex_trad_awaiting) 77 [7]
              = Inr (run ex_init ex_trad_final)"
    by (simp add: eval_defs)
  have v: "isPool (raffles (run ex_init ex_pool_open) 1)"
          "totalCollected (raffles (run ex_init ex_pool_open) 1) = 100"
          "\<not> isPool (raffles (run ex_init ex_own_raffle) 1)"
          "entryCount (raffles (run ex_init ex_own_raffle) 1) = 0"
          "\<not> fulfilled (vrfRequests (run ex_init ex_trad_awaiting) 77)"
          "raffleId (vrfRequests (run ex_init ex_trad_awaiting) 77) = 1"
          "totalCollected (raffles (run ex_init ex_trad_awaiting) 1) = 200"
    by (simp_all add: eval_defs)
  note t1 = C4_finalization [OF c refl, where cs = ex_pool_open and sender = 9 and now = 0
              and rId = 1 and sig = ex_no_sig and q = 0 and s' = "run ex_init ex_pool_final"]
  note t2 = C4_finalization [OF c refl, where cs = ex_own_raffle and sender = 9 and now = 0
              and rId = 1 and sig = "Signature 9 (EndRaffleMsg 1 9 1)" and q = 0
              and s' = "run ex_init ex_own_final"]
  note t3 = C4_finalization [OF c refl, where cs = ex_trad_awaiting and q' = 77
              and ws = "[7]" and s'' = "run ex_init ex_trad_final"]
  show ?thesis
    using t1 t2 t3 c e1 e2 e3 v by simp
qed

subsection \<open>C5: refund eligibility\<close>

text \<open>
  Claim C5 as stated fails in two ways. While the contract is paused, the refund of a
  member of an \<open>Active\<close> pool raffle reverts with \<open>ContractPaused\<close>. And for a
  traditional raffle whose deadline is so large that \<open>deadline + 3600\<close> exceeds
  \<open>uint256\<close>, the checked addition reverts with a panic at a time before
  \<open>deadline + gracePeriod\<close>, not with \<open>GracePeriodNotPassed\<close>.
\<close>

theorem C5_counterexample:
  "constructor_V5 ex_token 100 1 50 9 51 = Inr ex_init
   \<and> 6 \<in> hasEntered (raffles (run ex_init ex_pool_paused) 1)
   \<and> isPool (raffles (run ex_init ex_pool_paused) 1)
   \<and> status (raffles (run ex_init ex_pool_paused) 1) = Active
   \<and> refund (run ex_init ex_pool_paused) 6 0 1 = Inl ContractPaused
   \<and> 6 \<in> hasEntered (raffles (run ex_init ex_far_deadline) 1)
   \<and> \<not> isPool (raffles (run ex_init ex_far_deadline) 1)
   \<and> status (raffles (run ex_init ex_far_deadline) 1) = Active
   \<and> \<not> paused (run ex_init ex_far_deadline)
   \<and> 5 \<le> deadline (raffles (run ex_init ex_far_deadline) 1) + REFUND_GRACE_PERIOD
   \<and> refund (run ex_init ex_far_deadline) 6 5 1 = Inl Panic"
  by (simp add: eval_defs)

text \<open>
  Claim C5, amended: in a state reached from the constructor, while the contract is not
  paused, for every raffle and every participant who has entered it: if the raffle is a
  pool raffle, \<open>refund\<close> succeeds whenever the status is \<open>Active\<close>, at any time; if it is
  a traditional raffle, \<open>refund\<close> succeeds exactly when the status is \<open>Active\<close> and
  \<open>now > deadline + 3600\<close> (with \<open>deadline + 3600\<close> within \<open>uint256\<close>), and for an
  \<open>Active\<close> raffle it reverts with \<open>GracePeriodNotPassed\<close> at every time at or before
  \<open>deadline + 3600\<close> (again with the sum within \<open>uint256\<close>).
\<close>

theorem C5_refund_eligibility:
  assumes c: "constructor_V5 t this sender0 p a v = Inr s0" and s: "s = run s0 cs"
    and np: "\<not> paused s"
    and mem: "sender \<in> hasEntered (raffles s rId)"
  shows "(isPool (raffles s rId) \<and> status (raffles s rId) = Active \<longrightarrow>
            (\<exists>s'. refund s sender now rId = Inr s'))
       \<and> (\<not> isPool (raffles s rId) \<longrightarrow>
            ((\<exists>s'. refund s sender now rId = Inr s') \<longleftrightarrow>
               status (raffles s rId) = Active
               \<and> deadline (raffles s rId) + REFUND_GRACE_PERIOD \<le> MAX_UINT256
               \<and> deadline (raffles s rId) + REFUND_GRACE_PERIOD < now))
       \<and> (\<not> isPool (raffles s rId) \<and> status (raffles s rId) = Active
            \<and> deadline (raffles s rId) + REFUND_GRACE_PERIOD \<le> MAX_UINT256
            \<and> now \<le> deadline (raffles s rId) + REFUND_GRACE_PERIOD \<longrightarrow>
            refund s sender now rId = Inl GracePeriodNotPassed)
       \<and> REFUND_GRACE_PERIOD = 3600"
proof -
  let ?r = "raffles s rId"
  have inv: "state_inv s" using c s reached_inv by simp
  note m = member_exists[OF inv mem]
  have pool: "\<exists>s'. refund s sender now rId = Inr s'"
    if "isPool ?r \<and> status ?r = Active"
    using refund_succeeds[OF inv np mem] that by simp
  have trad_if: "\<exists>s'. refund s sender now rId = Inr s'"
    if "status ?r = Active \<and> deadline ?r + REFUND_GRACE_PERIOD \<le> MAX_UINT256
        \<and> deadline ?r + REFUND_GRACE_PERIOD < now"
    using refund_succeeds[OF inv np mem] that by simp
  have trad_only: "status ?r = Active \<and> deadline ?r + REFUND_GRACE_PERIOD \<le> MAX_UINT256
        \<and> deadline ?r + REFUND_GRACE_PERIOD < now"
    if "refund s sender now rId = Inr s'" "\<not> isPool ?r" for s'
    using that by (simp add: refund_def Let_def split: if_splits)
  have early: "refund s sender now rId = Inl GracePeriodNotPassed"
    if "\<not> isPool ?r \<and> status ?r = Active
        \<and> deadline ?r + REFUND_GRACE_PERIOD \<le> MAX_UINT256
        \<and> now \<le> deadline ?r + REFUND_GRACE_PERIOD"
    using that np m(1,2) mem by (simp add: refund_def Let_def)
  have iff: "(\<exists>s'. refund s sender now rId = Inr s') \<longleftrightarrow>
               status ?r = Active
               \<and> deadline ?r + REFUND_GRACE_PERIOD \<le> MAX_UINT256
               \<and> deadline ?r + REFUND_GRACE_PERIOD < now"
    if ip: "\<not> isPool ?r"
  proof
    assume "\<exists>s'. refund s sender now rId = Inr s'"
    then obtain s' where "refund s sender now rId = Inr s'" ..
    then show "status ?r = Active \<and> deadline ?r + REFUND_GRACE_PERIOD \<le> MAX_UINT256
        \<and> deadline ?r + REFUND_GRACE_PERIOD < now"
      using ip by (rule trad_only)
  next
    assume "status ?r = Active \<and> deadline ?r + REFUND_GRACE_PERIOD \<le> MAX_UINT256
        \<and> deadline ?r + REFUND_GRACE_PERIOD < now"
    then show "\<exists>s'. refund s sender now rId = Inr s'" by (rule trad_if)
  qed
  have gp: "REFUND_GRACE_PERIOD = 3600" by (simp add: REFUND_GRACE_PERIOD_def)
  from pool iff early gp show ?thesis by (intro conjI impI)
qed

text \<open>
  The amended C5 at three calls: member 6 of the open pool raffle is refunded at time 0;
  member 6 of the \<open>Active\<close> traditional raffle with deadline 10 is refused with
  \<open>GracePeriodNotPassed\<close> at time 3610 and refunded at time 3611.
\<close>

theorem C5_refund_eligibility_witness:
  "constructor_V5 ex_token 100 1 50 9 51 = Inr ex_init
   \<and> \<not> paused (run ex_init ex_pool_open)
   \<and> 6 \<in> hasEntered (raffles (run ex_init ex_pool_open) 1)
   \<and> isPool (raffles (run ex_init ex_pool_open) 1)
   \<and> status (raffles (run ex_init ex_pool_open) 1) = Active
   \<and> (\<exists>s'. refund (run ex_init ex_pool_open) 6 0 1 = Inr s')
   \<and> \<not> paused (run ex_init ex_trad_open)
   \<and> 6 \<in> hasEntered (raffles (run ex_init ex_trad_open) 1)
   \<and> \<not> isPool (raffles (run ex_init ex_trad_open) 1)
   \<and> status (raffles (run ex_init ex_trad_open) 1) = Active
   \<and> deadline (raffles (run ex_init ex_trad_open) 1) = 10
   \<and> refund (run ex_init ex_trad_open) 6 3610 1 = Inl GracePeriodNotPassed
   \<and> (\<exists>s'. refund (run ex_init ex_trad_open) 6 3611 1 = Inr s')"
proof -
  have c: "constructor_V5 ex_token 100 1 50 9 51 = Inr ex_init"
    by (simp add: eval_defs)
  have hp: "\<not> paused (run ex_init ex_pool_open)"
           "6 \<in> hasEntered (raffles (run ex_init ex_pool_open) 1)"
    by (simp_all add: eval_defs)
  have ht: "\<not> paused (run ex_init ex_trad_open)"
           "6 \<in> hasEntered (raffles (run ex_init ex_trad_open) 1)"
    by (simp_all add: eval_defs)
  have v: "isPool (raffles (run ex_init ex_pool_open) 1)"
          "status (raffles (run ex_init ex_pool_open) 1) = Active"
          "\<not> isPool (raffles (run ex_init ex_trad_open) 1)"
          "status (raffles (run ex_init ex_trad_open) 1) = Active"
          "deadline (raffles (run ex_init ex_trad_open) 1) = 10"
    by (simp_all add: eval_defs)
  note t1 = C5_refund_eligibility [OF c refl hp, of 0]
  note t2 = C5_refund_eligibility [OF c refl ht, of 3610]
  note t3 = C5_refund_eligibility [OF c refl ht, of 3611]
  have a: "\<exists>s'. refund (run ex_init ex_pool_open) 6 0 1 = Inr s'"
    using t1 v(1,2) by blast
  have b: "refund (run ex_init ex_trad_open) 6 3610 1 = Inl GracePeriodNotPassed"
    using t2 v(3,4) unfolding v(5) by (simp add: REFUND_GRACE_PERIOD_def MAX_UINT256_def)
  have d: "\<exists>s'. refund (run ex_init ex_trad_open) 6 3611 1 = Inr s'"
    using t3 v(3,4) unfolding v(5) by (simp add: REFUND_GRACE_PERIOD_def MAX_UINT256_def)
  show ?thesis using c hp ht v a b d by simp
qed

subsection \<open>C6: who may end a raffle\<close>

text \<open>
  Claim C6 as stated fails in two ways. The signature check of \<open>endRaffle\<close> is keyed on
  the caller being the organizer, so an App Server signer that is itself the organizer of
  the raffle does need a valid countersignature: with a well-formed signature that
  authorizes nothing, its call reverts with \<open>InvalidSignature\<close>. And while the contract is paused,
  the App Server's call reverts with \<open>ContractPaused\<close>.
\<close>

theorem C6_counterexample:
  "constructor_V5 ex_token 100 1 50 9 51 = Inr ex_init
   \<and> appServerSigner (run ex_init ex_own_raffle) = 9
   \<and> organizer (raffles (run ex_init ex_own_raffle) 1) = 9
   \<and> status (raffles (run ex_init ex_own_raffle) 1) = Active
   \<and> \<not> paused (run ex_init ex_own_raffle)
   \<and> endRaffle (run ex_init ex_own_raffle) 9 0 1 ex_no_sig 0 = Inl InvalidSignature
   \<and> appServerSigner (run ex_init ex_pool_paused) = 9
   \<and> status (raffles (run ex_init ex_pool_paused) 1) = Active
   \<and> endRaffle (run ex_init ex_pool_paused) 9 0 1 ex_no_sig 0 = Inl ContractPaused"
  by (simp add: eval_defs)

text \<open>
  Claim C6, amended: in a state reached from the constructor, while the contract is not
  paused, for every raffle with status \<open>Active\<close> or \<open>Closed\<close>:
  \<^item> called by the App Server signer who is not the raffle's organizer, \<open>endRaffle\<close>
    succeeds, with no timing gate and no countersignature;
  \<^item> called by the organizer who is not the App Server signer, it reverts with
    \<open>CannotEndPoolEarly\<close> for a pool raffle with \<open>totalCollected < targetAmount\<close> and
    \<open>now < deadline\<close>, and with \<open>DeadlineNotPassed\<close> for a traditional raffle with
    \<open>now < deadline\<close>;
  \<^item> called by the organizer past that timing gate, or by an organizer who is the App
    Server signer (for whom there is no timing gate), with a well-formed signature (one
    from which an address is recovered) and a nonce below the largest \<open>uint256\<close>, it
    succeeds when the signature is the App Server signer's over (raffle id, caller, the
    caller's current nonce), and reverts with \<open>InvalidSignature\<close> when it is any other
    well-formed signature;
  \<^item> called by anyone else, it reverts with \<open>InvalidSigner\<close>.
  Calls that carry empty or malformed signature bytes are outside this statement: the
  variable \<open>sig\<close> ranges over well-formed signatures only.
\<close>

theorem C6_end_authorization:
  assumes c: "constructor_V5 t this sender0 p a v = Inr s0" and s: "s = run s0 cs"
    and np: "\<not> paused s"
    and act: "status (raffles s rId) = Active \<or> status (raffles s rId) = Closed"
  shows "(sender = appServerSigner s \<and> sender \<noteq> organizer (raffles s rId) \<longrightarrow>
            (\<exists>s'. endRaffle s sender now rId sig q = Inr s'))
       \<and> (sender = organizer (raffles s rId) \<and> sender \<noteq> appServerSigner s
            \<and> isPool (raffles s rId)
            \<and> totalCollected (raffles s rId) < targetAmount (raffles s rId)
            \<and> now < deadline (raffles s rId) \<longrightarrow>
            endRaffle s sender now rId sig q = Inl CannotEndPoolEarly)
       \<and> (sender = organizer (raffles s rId) \<and> sender \<noteq> appServerSigner s
            \<and> \<not> isPool (raffles s rId) \<and> now < deadline (raffles s rId) \<longrightarrow>
            endRaffle s sender now rId sig q = Inl DeadlineNotPassed)
       \<and> (sender = organizer (raffles s rId)
            \<and> (sender = appServerSigner s
                \<or> (if isPool (raffles s rId)
                    then targetAmount (raffles s rId) \<le> totalCollected (raffles s rId)
                         \<or> deadline (raffles s rId) \<le> now
                    else deadline (raffles s rId) \<le> now))
            \<and> nonces s sender < MAX_UINT256 \<longrightarrow>
            (if recover (EndRaffleMsg rId sender (nonces s sender)) sig
                  = Some (appServerSigner s)
             then \<exists>s'. endRaffle s sender now rId sig q = Inr s'
             else endRaffle s sender now rId sig q = Inl InvalidSignature))
       \<and> (sender \<noteq> appServerSigner s \<and> sender \<noteq> organizer (raffles s rId) \<longrightarrow>
            endRaffle s sender now rId sig q = Inl InvalidSigner)"
proof -
  let ?r = "raffles s rId"
  have inv: "state_inv s" using c s reached_inv by simp
  have ex: "status ?r \<noteq> Inactive" using act by auto
  have k: "1 \<le> rId \<and> rId < nextRaffleId s" by (rule state_inv_valid_id[OF inv ex])
  have vid: "\<not> (rId = 0 \<or> nextRaffleId s \<le> rId)" using k by auto
  have st: "\<not> (status ?r \<noteq> Active \<and> status ?r \<noteq> Closed)" using act by blast
  have app: "\<exists>s'. endRaffle s sender now rId sig q = Inr s'"
    if "sender = appServerSigner s \<and> sender \<noteq> organizer ?r"
    using endRaffle_succeeds[OF inv np act, of sender now sig q] that by simp
  have early_pool: "endRaffle s sender now rId sig q = Inl CannotEndPoolEarly"
    if "sender = organizer ?r \<and> sender \<noteq> appServerSigner s \<and> isPool ?r
        \<and> totalCollected ?r < targetAmount ?r \<and> now < deadline ?r"
    using that np vid st by (simp add: endRaffle_def Let_def)
  have early_trad: "endRaffle s sender now rId sig q = Inl DeadlineNotPassed"
    if "sender = organizer ?r \<and> sender \<noteq> appServerSigner s
        \<and> \<not> isPool ?r \<and> now < deadline ?r"
    using that np vid st by (simp add: endRaffle_def Let_def)
  have other: "endRaffle s sender now rId sig q = Inl InvalidSigner"
    if "sender \<noteq> appServerSigner s \<and> sender \<noteq> organizer ?r"
    using that np vid st by (simp add: endRaffle_def Let_def)
  have signed: "if recover (EndRaffleMsg rId sender (nonces s sender)) sig
                     = Some (appServerSigner s)
                then \<exists>s'. endRaffle s sender now rId sig q = Inr s'
                else endRaffle s sender now rId sig q = Inl InvalidSignature"
    if h: "sender = organizer ?r
        \<and> (sender = appServerSigner s
            \<or> (if isPool ?r then targetAmount ?r \<le> totalCollected ?r \<or> deadline ?r \<le> now
                else deadline ?r \<le> now))
        \<and> nonces s sender < MAX_UINT256"
  proof (cases "recover (EndRaffleMsg rId sender (nonces s sender)) sig
                  = Some (appServerSigner s)")
    case True
    have "\<exists>s'. endRaffle s sender now rId sig q = Inr s'"
      by (rule endRaffle_succeeds[OF inv np act]) (use h True in auto)
    with True show ?thesis by simp
  next
    case False
    from h have so: "sender = organizer ?r" and nn: "\<not> MAX_UINT256 < nonces s sender + 1"
      by auto
    have "endRaffle s sender now rId sig q = Inl InvalidSignature"
    proof (cases "sender = appServerSigner s")
      case True
      with np vid st so nn False show ?thesis by (simp add: endRaffle_def Let_def)
    next
      case na: False
      show ?thesis
      proof (cases "isPool ?r")
        case True
        with h na have "\<not> (totalCollected ?r < targetAmount ?r \<and> now < deadline ?r)"
          by auto
        with np vid st so nn False na True show ?thesis
          by (simp add: endRaffle_def Let_def)
      next
        case ip: False
        with h na have "\<not> now < deadline ?r" by auto
        with np vid st so nn False na ip show ?thesis
          by (simp add: endRaffle_def Let_def)
      qed
    qed
    with False show ?thesis by simp
  qed
  from app early_pool early_trad signed other show ?thesis by (intro conjI impI)
qed

text \<open>
  The amended C6 on the example raffles (organizer 5, App Server signer 9, deadline 10):
  the App Server ends the pool raffle at time 0 without a signature; the organizer is
  refused at time 0 on the pool raffle (100 of 500 collected) and on the traditional
  raffle; at time 10 the organizer ends the traditional raffle with the App Server's
  signature over (1, 5, nonce 1) and is refused with \<open>InvalidSignature\<close> without it;
  6 is refused with \<open>InvalidSigner\<close>; and the App Server signer ends the raffle it
  organizes itself at time 0 with its signature over (1, 9, nonce 1).
\<close>

theorem C6_end_authorization_witness:
  "constructor_V5 ex_token 100 1 50 9 51 = Inr ex_init
   \<and> \<not> paused (run ex_init ex_pool_open)
   \<and> status (raffles (run ex_init ex_pool_open) 1) = Active
   \<and> appServerSigner (run ex_init ex_pool_open) = 9
   \<and> organizer (raffles (run ex_init ex_pool_open) 1) = 5
   \<and> (\<exists>s'. endRaffle (run ex_init ex_pool_open) 9 0 1 ex_no_sig 0 = Inr s')
   \<and> endRaffle (run ex_init ex_pool_open) 5 0 1 ex_no_sig 0 = Inl CannotEndPoolEarly
   \<and> \<not> paused (run ex_init ex_trad_open)
   \<and> status (raffles (run ex_init ex_trad_open) 1) = Active
   \<and> appServerSigner (run ex_init ex_trad_open) = 9
   \<and> organizer (raffles (run ex_init ex_trad_open) 1) = 5
   \<and> endRaffle (run ex_init ex_trad_open) 5 0 1 ex_no_sig 0 = Inl DeadlineNotPassed
   \<and> (\<exists>s'. endRaffle (run ex_init ex_trad_open) 5 10 1 (Signature 9 (EndRaffleMsg 1 5 1)) 0
              = Inr s')
   \<and> endRaffle (run ex_init ex_trad_open) 5 10 1 ex_no_sig 0 = Inl InvalidSignature
   \<and> endRaffle (run ex_init ex_trad_open) 6 10 1 ex_no_sig 0 = Inl InvalidSigner
   \<and> \<not> paused (run ex_init ex_own_raffle)
   \<and> status (raffles (run ex_init ex_own_raffle) 1) = Active
   \<and> appServerSigner (run ex_init ex_own_raffle) = 9
   \<and> organizer (raffles (run ex_init ex_own_raffle) 1) = 9
   \<and> (\<exists>s'. endRaffle (run ex_init ex_own_raffle) 9 0 1 (Signature 9 (EndRaffleMsg 1 9 1)) 0
              = Inr s')"
proof -
  have c: "constructor_V5 ex_token 100 1 50 9 51 = Inr ex_init"
    by (simp add: eval_defs)
  have hp: "\<not> paused (run ex_init ex_pool_open)"
           "status (raffles (run ex_init ex_pool_open) 1) = Active
            \<or> status (raffles (run ex_init ex_pool_open) 1) = Closed"
    by (simp_all add: eval_defs)
  have ht: "\<not> paused (run ex_init ex_trad_open)"
           "status (raffles (run ex_init ex_trad_open) 1) = Active
            \<or> status (raffles (run ex_init ex_trad_open) 1) = Closed"
    by (simp_all add: eval_defs)
  have ho: "\<not> paused (run ex_init ex_own_raffle)"
           "status (raffles (run ex_init ex_own_raffle) 1) = Active
            \<or> status (raffles (run ex_init ex_own_raffle) 1) = Closed"
    by (simp_all add: eval_defs)
  have vp: "status (raffles (run ex_init ex_pool_open) 1) = Active"
           "appServerSigner (run ex_init ex_pool_open) = 9"
           "organizer (raffles (run ex_init ex_pool_open) 1) = 5"
           "isPool (raffles (run ex_init ex_pool_open) 1)"
           "totalCollected (raffles (run ex_init ex_pool_open) 1) = 100"
           "targetAmount (raffles (run ex_init ex_pool_open) 1) = 500"
           "deadline (raffles (run ex_init ex_pool_open) 1) = 10"
    by (simp_all add: eval_defs)
  have vt: "status (raffles (run ex_init ex_trad_open) 1) = Active"
           "appServerSigner (run ex_init ex_trad_open) = 9"
           "organizer (raffles (run ex_init ex_trad_open) 1) = 5"
           "\<not> isPool (raffles (run ex_init ex_trad_open) 1)"
           "deadline (raffles (run ex_init ex_trad_open) 1) = 10"
           "nonces (run ex_init ex_trad_open) 5 = 1"
    by (simp_all add: eval_defs)
  have vo: "status (raffles (run ex_init ex_own_raffle) 1) = Active"
           "appServerSigner (run ex_init ex_own_raffle) = 9"
           "organizer (raffles (run ex_init ex_own_raffle) 1) = 9"
           "nonces (run ex_init ex_own_raffle) 9 = 1"
    by (simp_all add: eval_defs)
  have w1: "\<exists>s'. endRaffle (run ex_init ex_pool_open) 9 0 1 ex_no_sig 0 = Inr s'"
    using C6_end_authorization [OF c refl hp, of 9 0 ex_no_sig 0] vp by simp
  have w2: "endRaffle (run ex_init ex_pool_open) 5 0 1 ex_no_sig 0 = Inl CannotEndPoolEarly"
    using C6_end_authorization [OF c refl hp, of 5 0 ex_no_sig 0] vp by simp
  have w3: "endRaffle (run ex_init ex_trad_open) 5 0 1 ex_no_sig 0 = Inl DeadlineNotPassed"
    using C6_end_authorization [OF c refl ht, of 5 0 ex_no_sig 0] vt by simp
  have w4: "\<exists>s'. endRaffle (run ex_init ex_trad_open) 5 10 1
                   (Signature 9 (EndRaffleMsg 1 5 1)) 0 = Inr s'"
    using C6_end_authorization [OF c refl ht, of 5 10 "Signature 9 (EndRaffleMsg 1 5 1)" 0] vt
    by (simp add: MAX_UINT256_def)
  have w5: "endRaffle (run ex_init ex_trad_open) 5 10 1 ex_no_sig 0 = Inl InvalidSignature"
    using C6_end_authorization [OF c refl ht, of 5 10 ex_no_sig 0] vt
    by (simp add: MAX_UINT256_def ex_no_sig_def)
  have w6: "endRaffle (run ex_init ex_trad_open) 6 10 1 ex_no_sig 0 = Inl InvalidSigner"
    using C6_end_authorization [OF c refl ht, of 6 10 ex_no_sig 0] vt by simp
  have w7: "\<exists>s'. endRaffle (run ex_init ex_own_raffle) 9 0 1
                   (Signature 9 (EndRaffleMsg 1 9 1)) 0 = Inr s'"
    using C6_end_authorization [OF c refl ho, of 9 0 "Signature 9 (EndRaffleMsg 1 9 1)" 0] vo
    by (simp add: MAX_UINT256_def)
  show ?thesis
    using c hp(1) ht(1) ho(1) vp(1,2,3) vt(1,2,3) vo(1,2,3) w1 w2 w3 w4 w5 w6 w7
    by (intro conjI)
qed

subsection \<open>C7: the incentive split\<close>

text \<open>
  Claim C7: a successful \<open>joinIncentiveRaffle\<close> (in a state reached from the constructor,
  by a participant other than the contract itself) adds exactly
  \<open>entryCost - incentiveAmount\<close> to \<open>totalCollected\<close>; its external calls are, in this
  order, the pull of the full \<open>entryCost\<close> from the participant to the contract and the
  transfer of exactly \<open>incentiveAmount\<close> to the incentive destination (with the matching
  changes of the three token balances when the three accounts differ); and whenever
  later, after any further transactions, a refund of that participant succeeds, its one
  external call transfers exactly \<open>entryCost - incentiveAmount\<close> to the participant and
  \<open>totalCollected\<close> goes down by the same amount.
\<close>

theorem C7_incentive_split:
  assumes c: "constructor_V5 t this sender0 p a v = Inr s0" and s: "s = run s0 cs"
    and ns: "sender \<noteq> self s"
    and join: "joinIncentiveRaffle s sender rId pa sig = Inr s'"
  shows "incentiveAmount (raffles s rId) \<le> entryCost (raffles s rId)
       \<and> totalCollected (raffles s' rId) = totalCollected (raffles s rId)
             + (entryCost (raffles s rId) - incentiveAmount (raffles s rId))
       \<and> map fst (new_calls s s') =
             [CallTransferFrom sender (self s) (entryCost (raffles s rId)),
              CallTransfer pa (incentiveAmount (raffles s rId))]
       \<and> (sender \<noteq> pa \<and> pa \<noteq> self s \<longrightarrow>
             balanceOf (tok s') sender + entryCost (raffles s rId) = balanceOf (tok s) sender
             \<and> balanceOf (tok s') pa = balanceOf (tok s) pa + incentiveAmount (raffles s rId)
             \<and> balanceOf (tok s') (self s) + incentiveAmount (raffles s rId)
                 = balanceOf (tok s) (self s) + entryCost (raffles s rId))
       \<and> (refund (run s' cs') sender now rId = Inr s'' \<longrightarrow>
             map fst (new_calls (run s' cs') s'') =
               [CallTransfer sender (entryCost (raffles s rId) - incentiveAmount (raffles s rId))]
             \<and> totalCollected (raffles s'' rId)
                   + (entryCost (raffles s rId) - incentiveAmount (raffles s rId))
                 = totalCollected (raffles (run s' cs') rId))"
proof -
  let ?r = "raffles s rId"
  let ?s2 = "run s' cs'"
  note e = joinIncentiveRaffle_effect[OF join]
  have inv: "state_inv s" using c s reached_inv by simp
  have inv': "state_inv s'" by (rule joinIncentiveRaffle_inv[OF inv ns join])
  have f1: "raffle_frame ?r (raffles s' rId)" by (rule joinIncentiveRaffle_frame[OF join])
  have ex: "status (raffles s' rId) \<noteq> Inactive"
    using f1 e(4) by (simp add: raffle_frame_def)
  have f2: "raffle_frame (raffles s' rId) (raffles ?s2 rId)" by (rule run_frame[OF inv' ex])
  have ra: "raffleAmount (raffles ?s2 rId) = entryCost ?r - incentiveAmount ?r"
    using f1 f2 e(5) by (simp add: raffle_frame_def raffleAmount_def)
  have b: "balanceOf (tok s') sender + entryCost ?r = balanceOf (tok s) sender
           \<and> balanceOf (tok s') pa = balanceOf (tok s) pa + incentiveAmount ?r
           \<and> balanceOf (tok s') (self s) + incentiveAmount ?r
               = balanceOf (tok s) (self s) + entryCost ?r"
    if "sender \<noteq> pa \<and> pa \<noteq> self s"
    using joinIncentiveRaffle_balances[OF join ns] that by simp
  have r: "map fst (new_calls ?s2 s'') = [CallTransfer sender (entryCost ?r - incentiveAmount ?r)]
           \<and> totalCollected (raffles s'' rId) + (entryCost ?r - incentiveAmount ?r)
               = totalCollected (raffles ?s2 rId)"
    if "refund ?s2 sender now rId = Inr s''"
    using refund_effect[OF that] ra by simp
  show ?thesis using e(1,2,3) b r by simp
qed

text \<open>
  C7 in Scenario C (entry cost 100, incentive amount 20): the join credits 80, pulls 100
  from participant 6 and forwards 20 to address 8; the refund of 6 transfers 80 back.
\<close>

theorem C7_incentive_split_witness:
  "constructor_V5 ex_token 100 1 50 9 51 = Inr ex_init
   \<and> joinIncentiveRaffle (run ex_init ex_incentive_open) 6 1 8
         (Signature 9 (IncentiveEntryMsg 1 6 8 0)) = Inr (run ex_init ex_incentive_joined)
   \<and> totalCollected (raffles (run ex_init ex_incentive_open) 1) = 0
   \<and> totalCollected (raffles (run ex_init ex_incentive_joined) 1) = 80
   \<and> map fst (new_calls (run ex_init ex_incentive_open) (run ex_init ex_incentive_joined))
       = [CallTransferFrom 6 100 100, CallTransfer 8 20]
   \<and> balanceOf (tok (run ex_init ex_incentive_joined)) 6 = 900
   \<and> balanceOf (tok (run ex_init ex_incentive_joined)) 8 = 1020
   \<and> balanceOf (tok (run ex_init ex_incentive_joined)) 100 = 80
   \<and> refund (run ex_init ex_incentive_joined) 6 0 1 = Inr (run ex_init ex_incentive_refunded)
   \<and> map fst (new_calls (run ex_init ex_incentive_joined) (run ex_init ex_incentive_refunded))
       = [CallTransfer 6 80]
   \<and> totalCollected (raffles (run ex_init ex_incentive_refunded) 1) = 0"
proof -
  have c: "constructor_V5 ex_token 100 1 50 9 51 = Inr ex_init"
    by (simp add: eval_defs)
  have ns: "6 \<noteq> self (run ex_init ex_incentive_open)"
    by (simp add: eval_defs)
  have j: "joinIncentiveRaffle (run ex_init ex_incentive_open) 6 1 8
         (Signature 9 (IncentiveEntryMsg 1 6 8 0)) = Inr (run ex_init ex_incentive_joined)"
    by (simp add: eval_defs)
  have r: "refund (run (run ex_init ex_incentive_joined) []) 6 0 1
             = Inr (run ex_init ex_incentive_refunded)"
    by (simp add: eval_defs)
  have v: "entryCost (raffles (run ex_init ex_incentive_open) 1) = 100"
          "incentiveAmount (raffles (run ex_init ex_incentive_open) 1) = 20"
          "totalCollected (raffles (run ex_init ex_incentive_open) 1) = 0"
          "self (run ex_init ex_incentive_open) = 100"
          "balanceOf (tok (run ex_init ex_incentive_open)) 6 = 1000"
          "balanceOf (tok (run ex_init ex_incentive_open)) 8 = 1000"
          "balanceOf (tok (run ex_init ex_incentive_open)) 100 = 0"
    by (simp_all add: eval_defs)
  have e: "run (run ex_init ex_incentive_joined) [] = run ex_init ex_incentive_joined"
    by (simp add: run_def)
  note t = C7_incentive_split [OF c refl ns j, of "[]" 0 "run ex_init ex_incentive_refunded"]
  show ?thesis
    using t r c j unfolding e v by simp
qed

subsection \<open>C8: the winner index\<close>

text \<open>
  Claim C8: for every raffle in \<open>AwaitingVRF\<close> with \<open>entryCount > 0\<close>, in a state reached
  from the constructor, the first fulfillment callback for its request (one that carries
  a random word \<open>w\<close>) returns and sets \<open>winnerIndex = (w mod entryCount) + 1\<close>.
\<close>

theorem C8_winner_index:
  assumes c: "constructor_V5 t this sender p a v = Inr s0" and s: "s = run s0 cs"
    and q: "raffleId (vrfRequests s q) = k" "k \<noteq> 0" "\<not> fulfilled (vrfRequests s q)"
    and aw: "status (raffles s k) = AwaitingVRF"
    and n: "0 < entryCount (raffles s k)"
  shows "\<exists>s'. fulfillRandomWords s q (w # ws) = Inr s'
            \<and> winnerIndex (raffles s' k) = w mod entryCount (raffles s k) + 1"
proof -
  let ?r = "raffles s k"
  let ?wi = "w mod entryCount ?r + 1"
  let ?s2 = "s\<lparr> vrfRequests := (vrfRequests s)(q := (vrfRequests s q)\<lparr>fulfilled := True\<rparr>),
                raffles := (raffles s)(k := ?r\<lparr> winnerIndex := ?wi, status := Finalized,
                                                totalCollected := 0 \<rparr>) \<rparr>"
  have inv: "state_inv s" using c s reached_inv by simp
  have "entryCount ?r \<le> MAX_UINT256"
    using state_inv_raffle[OF inv, of k] by (simp add: raffle_inv_def)
  moreover have "w mod entryCount ?r < entryCount ?r" using n by simp
  ultimately have mx: "\<not> ?wi > MAX_UINT256" by linarith
  have "totalCollected ?r \<le> balanceOf (tok s) (self s)"
    using state_inv_covered[OF inv] aw by simp
  then obtain s3 where s3: "paymentToken_transfer ?s2 (payoutAddress ?r) (totalCollected ?r) = Some s3"
    using transfer_Some[of "totalCollected ?r" ?s2 "payoutAddress ?r"] by auto
  have r3: "raffles s3 = raffles ?s2" using raffles_transfer[OF s3] by simp
  show ?thesis
  proof (cases "0 < totalCollected ?r")
    case True
    have "fulfillRandomWords s q (w # ws) = Inr s3"
      using q aw n mx True s3 by (simp add: fulfillRandomWords_def Let_def)
    moreover have "winnerIndex (raffles s3 k) = ?wi" using r3 by simp
    ultimately show ?thesis by blast
  next
    case False
    have "fulfillRandomWords s q (w # ws) = Inr ?s2"
      using q aw n mx False by (simp add: fulfillRandomWords_def Let_def)
    moreover have "winnerIndex (raffles ?s2 k) = ?wi" by simp
    ultimately show ?thesis by blast
  qed
qed

text \<open>
  C8 in Scenario A: two entries, random value 7, so the winner index is
  \<open>(7 mod 2) + 1 = 2\<close>.
\<close>

theorem C8_winner_index_witness:
  "constructor_V5 ex_token 100 1 50 9 51 = Inr ex_init
   \<and> raffleId (vrfRequests (run ex_init ex_trad_awaiting) 77) = 1
   \<and> \<not> fulfilled (vrfRequests (run ex_init ex_trad_awaiting) 77)
   \<and> status (raffles (run ex_init ex_trad_awaiting) 1) = AwaitingVRF
   \<and> entryCount (raffles (run ex_init ex_trad_awaiting) 1) = 2
   \<and> fulfillRandomWords (run ex_init ex_trad_awaiting) 77 [7] = Inr (run ex_init ex_trad_final)
   \<and> winnerIndex (raffles (run ex_init ex_trad_final) 1) = 2"
proof -
  have c: "constructor_V5 ex_token 100 1 50 9 51 = Inr ex_init"
    by (simp add: eval_defs)
  have h: "raffleId (vrfRequests (run ex_init ex_trad_awaiting) 77) = 1" "(1::nat) \<noteq> 0"
          "\<not> fulfilled (vrfRequests (run ex_init ex_trad_awaiting) 77)"
          "status (raffles (run ex_init ex_trad_awaiting) 1) = AwaitingVRF"
          "0 < entryCount (raffles (run ex_init ex_trad_awaiting) 1)"
    by (simp_all add: eval_defs)
  have n: "entryCount (raffles (run ex_init ex_trad_awaiting) 1) = 2"
    by (simp add: eval_defs)
  from C8_winner_index [OF c refl h, of 7 "[]"]
  obtain s' where f: "fulfillRandomWords (run ex_init ex_trad_awaiting) 77 [7] = Inr s'"
    and wi: "winnerIndex (raffles s' 1)
               = 7 mod entryCount (raffles (run ex_init ex_trad_awaiting) 1) + 1"
    by blast
  from wi have "winnerIndex (raffles s' 1) = 2" unfolding n by simp
  moreover have "fulfillRandomWords (run ex_init ex_trad_awaiting) 77 [7]
                   = Inr (run ex_init ex_trad_final)"
    by (simp add: eval_defs)
  ultimately have "fulfillRandomWords (run ex_init ex_trad_awaiting) 77 [7]
                     = Inr (run ex_init ex_trad_final)
                   \<and> winnerIndex (raffles (run ex_init ex_trad_final) 1) = 2"
    using f by simp
  with c h n show ?thesis by simp
qed

subsection \<open>C9: automatic closing after an entry\<close>

text \<open>
  Claim C9: every successful entry (\<open>enterRaffle\<close> and \<open>joinIncentiveRaffle\<close>) is made
  into an \<open>Active\<close> raffle, adds the caller to the members, raises the entry count by one
  and the collected balance by the entry's raffle portion (\<open>entryCost\<close>, respectively
  \<open>entryCost - incentiveAmount\<close>), leaves type, entry limit, mode and target as they
  were, and then leaves the raffle \<open>Closed\<close> exactly when it is DonationBased and the
  raised entry count has reached the entry limit, or it is a pool raffle and the raised
  balance has reached the target amount; otherwise the raffle is still \<open>Active\<close>.
\<close>

theorem C9_auto_close:
  "(enterRaffle s sender rId = Inr s' \<longrightarrow>
      status (raffles s rId) = Active
      \<and> hasEntered (raffles s' rId) = insert sender (hasEntered (raffles s rId))
      \<and> entryCount (raffles s' rId) = entryCount (raffles s rId) + 1
      \<and> totalCollected (raffles s' rId)
          = totalCollected (raffles s rId) + entryCost (raffles s rId)
      \<and> raffleType (raffles s' rId) = raffleType (raffles s rId)
      \<and> entryLimit (raffles s' rId) = entryLimit (raffles s rId)
      \<and> isPool (raffles s' rId) = isPool (raffles s rId)
      \<and> targetAmount (raffles s' rId) = targetAmount (raffles s rId)
      \<and> status (raffles s' rId) =
          (if (raffleType (raffles s rId) = DonationBased
                 \<and> entryCount (raffles s rId) + 1 \<ge> entryLimit (raffles s rId))
              \<or> (isPool (raffles s rId)
                 \<and> totalCollected (raffles s rId) + entryCost (raffles s rId)
                     \<ge> targetAmount (raffles s rId))
           then Closed else Active)
      \<and> status (raffles s' rId) =
          (if (raffleType (raffles s' rId) = DonationBased
                 \<and> entryCount (raffles s' rId) \<ge> entryLimit (raffles s' rId))
              \<or> (isPool (raffles s' rId)
                 \<and> totalCollected (raffles s' rId) \<ge> targetAmount (raffles s' rId))
           then Closed else Active))
   \<and> (joinIncentiveRaffle s sender rId paymentAddress sig = Inr s'' \<longrightarrow>
      status (raffles s rId) = Active
      \<and> incentiveAmount (raffles s rId) \<le> entryCost (raffles s rId)
      \<and> hasEntered (raffles s'' rId) = insert sender (hasEntered (raffles s rId))
      \<and> entryCount (raffles s'' rId) = entryCount (raffles s rId) + 1
      \<and> totalCollected (raffles s'' rId)
          = totalCollected (raffles s rId)
            + (entryCost (raffles s rId) - incentiveAmount (raffles s rId))
      \<and> raffleType (raffles s'' rId) = raffleType (raffles s rId)
      \<and> entryLimit (raffles s'' rId) = entryLimit (raffles s rId)
      \<and> isPool (raffles s'' rId) = isPool (raffles s rId)
      \<and> targetAmount (raffles s'' rId) = targetAmount (raffles s rId)
      \<and> status (raffles s'' rId) =
          (if (raffleType (raffles s rId) = DonationBased
                 \<and> entryCount (raffles s rId) + 1 \<ge> entryLimit (raffles s rId))
              \<or> (isPool (raffles s rId)
                 \<and> totalCollected (raffles s rId)
                       + (entryCost (raffles s rId) - incentiveAmount (raffles s rId))
                     \<ge> targetAmount (raffles s rId))
           then Closed else Active)
      \<and> status (raffles s'' rId) =
          (if (raffleType (raffles s'' rId) = DonationBased
                 \<and> entryCount (raffles s'' rId) \<ge> entryLimit (raffles s'' rId))
              \<or> (isPool (raffles s'' rId)
                 \<and> totalCollected (raffles s'' rId) \<ge> targetAmount (raffles s'' rId))
           then Closed else Active))"
proof (intro conjI impI)
  assume ok: "enterRaffle s sender rId = Inr s'"
  let ?r = "raffles s rId"
  let ?r1 = "?r\<lparr> hasEntered := insert sender (hasEntered ?r),
                  entryCount := entryCount ?r + 1,
                  totalCollected := totalCollected ?r + entryCost ?r \<rparr>"
  let ?close = "(raffleType ?r = DonationBased \<and> entryCount ?r + 1 \<ge> entryLimit ?r)
                \<or> (isPool ?r \<and> totalCollected ?r + entryCost ?r \<ge> targetAmount ?r)"
  from ok show act: "status ?r = Active"
    by (simp add: enterRaffle_def Let_def split: if_splits)
  from ok have r': "raffles s' rId = (if ?close then ?r1\<lparr>status := Closed\<rparr> else ?r1)"
    by (auto simp: enterRaffle_def Let_def paymentToken_transferFrom_def
             split: if_splits option.splits)
  show "hasEntered (raffles s' rId) = insert sender (hasEntered ?r)"
    and "entryCount (raffles s' rId) = entryCount ?r + 1"
    and "totalCollected (raffles s' rId) = totalCollected ?r + entryCost ?r"
    and "raffleType (raffles s' rId) = raffleType ?r"
    and "entryLimit (raffles s' rId) = entryLimit ?r"
    and "isPool (raffles s' rId) = isPool ?r"
    and "targetAmount (raffles s' rId) = targetAmount ?r"
    unfolding r' by simp_all
  show "status (raffles s' rId) = (if ?close then Closed else Active)"
    unfolding r' using act by simp
  show "status (raffles s' rId) =
          (if (raffleType (raffles s' rId) = DonationBased
                 \<and> entryCount (raffles s' rId) \<ge> entryLimit (raffles s' rId))
              \<or> (isPool (raffles s' rId)
                 \<and> totalCollected (raffles s' rId) \<ge> targetAmount (raffles s' rId))
           then Closed else Active)"
    unfolding r' using act by simp
next
  assume ok: "joinIncentiveRaffle s sender rId paymentAddress sig = Inr s''"
  let ?r = "raffles s rId"
  let ?amt = "entryCost ?r - incentiveAmount ?r"
  let ?r1 = "?r\<lparr> hasEntered := insert sender (hasEntered ?r),
                  entryCount := entryCount ?r + 1,
                  totalCollected := totalCollected ?r + ?amt \<rparr>"
  let ?close = "(raffleType ?r = DonationBased \<and> entryCount ?r + 1 \<ge> entryLimit ?r)
                \<or> (isPool ?r \<and> totalCollected ?r + ?amt \<ge> targetAmount ?r)"
  from ok show act: "status ?r = Active"
    by (simp add: joinIncentiveRaffle_def Let_def split: if_splits)
  from ok show "incentiveAmount ?r \<le> entryCost ?r"
    by (simp add: joinIncentiveRaffle_def Let_def split: if_splits)
  from ok have ty: "raffleType ?r = IncentiveBased"
    by (simp add: joinIncentiveRaffle_def Let_def split: if_splits)
  from ok have r': "raffles s'' rId = (if ?close then ?r1\<lparr>status := Closed\<rparr> else ?r1)"
    by (auto simp: joinIncentiveRaffle_def Let_def paymentToken_transferFrom_def
             paymentToken_transfer_def split: if_splits option.splits)
  show "hasEntered (raffles s'' rId) = insert sender (hasEntered ?r)"
    and "entryCount (raffles s'' rId) = entryCount ?r + 1"
    and "totalCollected (raffles s'' rId) = totalCollected ?r + ?amt"
    and "raffleType (raffles s'' rId) = raffleType ?r"
    and "entryLimit (raffles s'' rId) = entryLimit ?r"
    and "isPool (raffles s'' rId) = isPool ?r"
    and "targetAmount (raffles s'' rId) = targetAmount ?r"
    unfolding r' by simp_all
  show "status (raffles s'' rId) = (if ?close then Closed else Active)"
    unfolding r' using act by simp
  show "status (raffles s'' rId) =
          (if (raffleType (raffles s'' rId) = DonationBased
                 \<and> entryCount (raffles s'' rId) \<ge> entryLimit (raffles s'' rId))
              \<or> (isPool (raffles s'' rId)
                 \<and> totalCollected (raffles s'' rId) \<ge> targetAmount (raffles s'' rId))
           then Closed else Active)"
    unfolding r' using act by simp
qed

text \<open>
  C9 at five entries. The second entry into the DonationBased raffle with entry limit 2
  closes it. The second entry into the pool raffle with target 200 raises the balance
  from 100 to 200 and closes it, while the second entry into the pool raffle with target
  500 leaves it \<open>Active\<close>. The second join of the incentive pool raffle with target 160
  raises the balance from 80 to 160 and closes it, while the first join of the incentive
  pool raffle with target 500 (balance 0 to 80) leaves it \<open>Active\<close>.
\<close>

theorem C9_auto_close_witness:
  "enterRaffle (run ex_init ex_trad_open) 8 1 = Inr (run ex_init ex_trad_closed)
   \<and> raffleType (raffles (run ex_init ex_trad_open) 1) = DonationBased
   \<and> entryLimit (raffles (run ex_init ex_trad_open) 1) = 2
   \<and> entryCount (raffles (run ex_init ex_trad_open) 1) = 1
   \<and> entryCount (raffles (run ex_init ex_trad_closed) 1) = 2
   \<and> status (raffles (run ex_init ex_trad_open) 1) = Active
   \<and> status (raffles (run ex_init ex_trad_closed) 1) = Closed
   \<and> enterRaffle (run ex_init ex_small_pool_open) 8 1 = Inr (run ex_init ex_small_pool_closed)
   \<and> isPool (raffles (run ex_init ex_small_pool_open) 1)
   \<and> targetAmount (raffles (run ex_init ex_small_pool_open) 1) = 200
   \<and> totalCollected (raffles (run ex_init ex_small_pool_open) 1) = 100
   \<and> totalCollected (raffles (run ex_init ex_small_pool_closed) 1) = 200
   \<and> status (raffles (run ex_init ex_small_pool_open) 1) = Active
   \<and> status (raffles (run ex_init ex_small_pool_closed) 1) = Closed
   \<and> enterRaffle (run ex_init ex_pool_open) 8 1
       = Inr (run ex_init (ex_pool_open @ [EnterRaffle 8 1]))
   \<and> targetAmount (raffles (run ex_init ex_pool_open) 1) = 500
   \<and> totalCollected (raffles (run ex_init (ex_pool_open @ [EnterRaffle 8 1])) 1) = 200
   \<and> status (raffles (run ex_init (ex_pool_open @ [EnterRaffle 8 1])) 1) = Active
   \<and> joinIncentiveRaffle (run ex_init ex_small_incentive_open) 8 1 6
         (Signature 9 (IncentiveEntryMsg 1 8 6 0)) = Inr (run ex_init ex_small_incentive_closed)
   \<and> isPool (raffles (run ex_init ex_small_incentive_open) 1)
   \<and> targetAmount (raffles (run ex_init ex_small_incentive_open) 1) = 160
   \<and> totalCollected (raffles (run ex_init ex_small_incentive_open) 1) = 80
   \<and> totalCollected (raffles (run ex_init ex_small_incentive_closed) 1) = 160
   \<and> status (raffles (run ex_init ex_small_incentive_open) 1) = Active
   \<and> status (raffles (run ex_init ex_small_incentive_closed) 1) = Closed
   \<and> joinIncentiveRaffle (run ex_init ex_incentive_open) 6 1 8
         (Signature 9 (IncentiveEntryMsg 1 6 8 0)) = Inr (run ex_init ex_incentive_joined)
   \<and> targetAmount (raffles (run ex_init ex_incentive_open) 1) = 500
   \<and> totalCollected (raffles (run ex_init ex_incentive_joined) 1) = 80
   \<and> status (raffles (run ex_init ex_incentive_open) 1) = Active
   \<and> status (raffles (run ex_init ex_incentive_joined) 1) = Active"
proof -
  have e1: "enterRaffle (run ex_init ex_trad_open) 8 1 = Inr (run ex_init ex_trad_closed)"
    by (simp add: eval_defs)
  have e2: "enterRaffle (run ex_init ex_small_pool_open) 8 1
              = Inr (run ex_init ex_small_pool_closed)"
    by (simp add: eval_defs)
  have e3: "enterRaffle (run ex_init ex_pool_open) 8 1
              = Inr (run ex_init (ex_pool_open @ [EnterRaffle 8 1]))"
    by (simp add: eval_defs)
  have j1: "joinIncentiveRaffle (run ex_init ex_small_incentive_open) 8 1 6
         (Signature 9 (IncentiveEntryMsg 1 8 6 0)) = Inr (run ex_init ex_small_incentive_closed)"
    by (simp add: eval_defs)
  have j2: "joinIncentiveRaffle (run ex_init ex_incentive_open) 6 1 8
         (Signature 9 (IncentiveEntryMsg 1 6 8 0)) = Inr (run ex_init ex_incentive_joined)"
    by (simp add: eval_defs)
  have pre: "raffleType (raffles (run ex_init ex_trad_open) 1) = DonationBased"
            "entryLimit (raffles (run ex_init ex_trad_open) 1) = 2"
            "entryCount (raffles (run ex_init ex_trad_open) 1) = 1"
            "isPool (raffles (run ex_init ex_small_pool_open) 1)"
            "targetAmount (raffles (run ex_init ex_small_pool_open) 1) = 200"
            "totalCollected (raffles (run ex_init ex_small_pool_open) 1) = 100"
            "entryCost (raffles (run ex_init ex_small_pool_open) 1) = 100"
            "raffleType (raffles (run ex_init ex_pool_open) 1) = ProfitBased"
            "targetAmount (raffles (run ex_init ex_pool_open) 1) = 500"
            "totalCollected (raffles (run ex_init ex_pool_open) 1) = 100"
            "entryCost (raffles (run ex_init ex_pool_open) 1) = 100"
            "isPool (raffles (run ex_init ex_small_incentive_open) 1)"
            "raffleType (raffles (run ex_init ex_small_incentive_open) 1) = IncentiveBased"
            "targetAmount (raffles (run ex_init ex_small_incentive_open) 1) = 160"
            "totalCollected (raffles (run ex_init ex_small_incentive_open) 1) = 80"
            "entryCost (raffles (run ex_init ex_small_incentive_open) 1) = 100"
            "incentiveAmount (raffles (run ex_init ex_small_incentive_open) 1) = 20"
            "raffleType (raffles (run ex_init ex_incentive_open) 1) = IncentiveBased"
            "targetAmount (raffles (run ex_init ex_incentive_open) 1) = 500"
            "totalCollected (raffles (run ex_init ex_incentive_open) 1) = 0"
            "entryCost (raffles (run ex_init ex_incentive_open) 1) = 100"
            "incentiveAmount (raffles (run ex_init ex_incentive_open) 1) = 20"
    by (simp_all add: eval_defs)
  note t1 = C9_auto_close [where s = "run ex_init ex_trad_open" and sender = 8 and rId = 1
                             and s' = "run ex_init ex_trad_closed"]
  note t2 = C9_auto_close [where s = "run ex_init ex_small_pool_open" and sender = 8
                             and rId = 1 and s' = "run ex_init ex_small_pool_closed"]
  note t3 = C9_auto_close [where s = "run ex_init ex_pool_open" and sender = 8 and rId = 1
                             and s' = "run ex_init (ex_pool_open @ [EnterRaffle 8 1])"]
  note t4 = C9_auto_close [where s = "run ex_init ex_small_incentive_open" and sender = 8
                             and rId = 1 and paymentAddress = 6
                             and sig = "Signature 9 (IncentiveEntryMsg 1 8 6 0)"
                             and s'' = "run ex_init ex_small_incentive_closed"]
  note t5 = C9_auto_close [where s = "run ex_init ex_incentive_open" and sender = 6
                             and rId = 1 and paymentAddress = 8
                             and sig = "Signature 9 (IncentiveEntryMsg 1 6 8 0)"
                             and s'' = "run ex_init ex_incentive_joined"]
  have a1: "entryCount (raffles (run ex_init ex_trad_closed) 1) = 2
            \<and> status (raffles (run ex_init ex_trad_open) 1) = Active
            \<and> status (raffles (run ex_init ex_trad_closed) 1) = Closed"
    using t1 e1 pre(1-3) by simp
  have a2: "totalCollected (raffles (run ex_init ex_small_pool_closed) 1) = 200
            \<and> status (raffles (run ex_init ex_small_pool_open) 1) = Active
            \<and> status (raffles (run ex_init ex_small_pool_closed) 1) = Closed"
    using t2 e2 pre(4-7) by simp
  have a3: "totalCollected (raffles (run ex_init (ex_pool_open @ [EnterRaffle 8 1])) 1) = 200
            \<and> status (raffles (run ex_init (ex_pool_open @ [EnterRaffle 8 1])) 1) = Active"
    using t3 e3 pre(8-11) by simp
  have a4: "totalCollected (raffles (run ex_init ex_small_incentive_closed) 1) = 160
            \<and> status (raffles (run ex_init ex_small_incentive_open) 1) = Active
            \<and> status (raffles (run ex_init ex_small_incentive_closed) 1) = Closed"
    using t4 j1 pre(12-17) by simp
  have a5: "totalCollected (raffles (run ex_init ex_incentive_joined) 1) = 80
            \<and> status (raffles (run ex_init ex_incentive_open) 1) = Active
            \<and> status (raffles (run ex_init ex_incentive_joined) 1) = Active"
    using t5 j2 pre(18-22) by simp
  show ?thesis
    using e1 e2 e3 j1 j2 pre a1 a2 a3 a4 a5 by simp
qed

subsection \<open>C10: refund by a non-member\<close>

text \<open>
  Claim C10 as stated fails while the contract is paused: \<open>whenNotPaused\<close> runs before
  the membership check, so the refund of a non-member reverts with \<open>ContractPaused\<close>.
  Here 8 never entered raffle 1 and the owner has paused the contract.
\<close>

theorem C10_counterexample:
  "constructor_V5 ex_token 100 1 50 9 51 = Inr ex_init
   \<and> nextRaffleId (run ex_init ex_pool_paused) = 2
   \<and> 8 \<notin> hasEntered (raffles (run ex_init ex_pool_paused) 1)
   \<and> refund (run ex_init ex_pool_paused) 8 0 1 = Inl ContractPaused
   \<and> refund (run ex_init ex_pool_paused) 8 0 1 \<noteq> Inl AlreadyEntered"
  by (simp add: eval_defs)

text \<open>
  Claim C10, amended: while the contract is not paused, for every valid raffle id,
  \<open>refund\<close> from an address that is not currently a member reverts with
  \<open>AlreadyEntered\<close> (a revert: no state change and no transfer), which is the error that
  rejects a second entry of a member into an \<open>Active\<close> raffle.
\<close>

theorem C10_refund_non_member:
  assumes "\<not> paused s" and "rId \<noteq> 0" and "rId < nextRaffleId s"
  shows "(sender \<notin> hasEntered (raffles s rId) \<longrightarrow>
            refund s sender now rId = Inl AlreadyEntered)
       \<and> (sender \<in> hasEntered (raffles s rId) \<and> status (raffles s rId) = Active \<longrightarrow>
            enterRaffle s sender rId = Inl AlreadyEntered
            \<and> joinIncentiveRaffle s sender rId paymentAddress sig =
                (if paymentAddress = 0 then Inl ZeroAddress else Inl AlreadyEntered))"
  using assms by (simp add: refund_def enterRaffle_def joinIncentiveRaffle_def Let_def)

text \<open>
  The amended C10 in the run with the open pool raffle: 8 is no member and its refund
  reverts with \<open>AlreadyEntered\<close>; 6 is a member and its second entry reverts with the same
  error.
\<close>

theorem C10_refund_non_member_witness:
  "\<not> paused (run ex_init ex_pool_open)
   \<and> nextRaffleId (run ex_init ex_pool_open) = 2
   \<and> 8 \<notin> hasEntered (raffles (run ex_init ex_pool_open) 1)
   \<and> refund (run ex_init ex_pool_open) 8 0 1 = Inl AlreadyEntered
   \<and> 6 \<in> hasEntered (raffles (run ex_init ex_pool_open) 1)
   \<and> status (raffles (run ex_init ex_pool_open) 1) = Active
   \<and> enterRaffle (run ex_init ex_pool_open) 6 1 = Inl AlreadyEntered"
proof -
  have h: "\<not> paused (run ex_init ex_pool_open)" "(1::nat) \<noteq> 0"
          "1 < nextRaffleId (run ex_init ex_pool_open)"
    by (simp_all add: eval_defs)
  have m: "8 \<notin> hasEntered (raffles (run ex_init ex_pool_open) 1)"
          "6 \<in> hasEntered (raffles (run ex_init ex_pool_open) 1)"
          "status (raffles (run ex_init ex_pool_open) 1) = Active"
          "nextRaffleId (run ex_init ex_pool_open) = 2"
    by (simp_all add: eval_defs)
  show ?thesis
    using C10_refund_non_member [OF h, of 8 0 7 ex_no_sig]
          C10_refund_non_member [OF h, of 6 0 7 ex_no_sig] h m
    by simp
qed

end
